theory Spec2Isabelle
  imports Main
begin

section \<open>WinMerge project files: the document model, the SAX handler, Read and Save\<close>

text \<open>
  A shallow embedding of \<^verbatim>\<open>Src/ProjectFile.cpp\<close>. The C++ strings (\<^verbatim>\<open>String\<close>,
  \<^verbatim>\<open>std::string\<close>, \<^verbatim>\<open>XMLString\<close>) are all \<^typ>\<open>string\<close>; the encoding conversions
  \<^verbatim>\<open>toUTF8\<close>, \<^verbatim>\<open>toTString\<close> and \<^verbatim>\<open>xmlch2tstr\<close> are inverse to each other on the
  text a project file holds and are the identity here. A C++ \<^verbatim>\<open>int\<close> is an \<^typ>\<open>int\<close>
  between \<open>INT_MIN\<close> and \<open>INT_MAX\<close>.
\<close>

subsection \<open>Element names\<close>

definition Root_element_name :: string where "Root_element_name = ''project''"
definition Paths_element_name :: string where "Paths_element_name = ''paths''"
definition Left_element_name :: string where "Left_element_name = ''left''"
definition Middle_element_name :: string where "Middle_element_name = ''middle''"
definition Right_element_name :: string where "Right_element_name = ''right''"
definition Filter_element_name :: string where "Filter_element_name = ''filter''"
definition Subfolders_element_name :: string where "Subfolders_element_name = ''subfolders''"
definition Left_ro_element_name :: string where "Left_ro_element_name = ''left-readonly''"
definition Middle_ro_element_name :: string where "Middle_ro_element_name = ''middle-readonly''"
definition Right_ro_element_name :: string where "Right_ro_element_name = ''right-readonly''"
definition Unpacker_element_name :: string where "Unpacker_element_name = ''unpacker''"
definition Prediffer_element_name :: string where "Prediffer_element_name = ''prediffer''"
definition White_spaces_element_name :: string where "White_spaces_element_name = ''white-spaces''"
definition Ignore_blank_lines_element_name :: string where
  "Ignore_blank_lines_element_name = ''ignore-blank-lines''"
definition Ignore_case_element_name :: string where "Ignore_case_element_name = ''ignore-case''"
definition Ignore_cr_diff_element_name :: string where
  "Ignore_cr_diff_element_name = ''ignore-carriage-return-diff''"
definition Ignore_numbers_element_name :: string where
  "Ignore_numbers_element_name = ''ignore-numbers''"
definition Ignore_codepage_diff_element_name :: string where
  "Ignore_codepage_diff_element_name = ''ignore-codepage-diff''"
definition Ignore_comment_diff_element_name :: string where
  "Ignore_comment_diff_element_name = ''ignore-comment-diff''"
definition Compare_method_element_name :: string where
  "Compare_method_element_name = ''compare-method''"
definition Hidden_list_element_name :: string where "Hidden_list_element_name = ''hidden-list''"
definition Hidden_items_element_name :: string where "Hidden_items_element_name = ''hidden-item''"

subsection \<open>The C library: atoi and std::to\_string\<close>

text \<open>
  \<^verbatim>\<open>atoi\<close> skips leading white space, reads an optional sign and then the longest run of
  decimal digits; with no digit the result is 0. A value that does not fit an \<^verbatim>\<open>int\<close> is
  undefined in ISO C; the Microsoft runtime WinMerge is built with returns \<open>INT_MAX\<close> or
  \<open>INT_MIN\<close> then, and so does \<open>clamp_int\<close>.
\<close>

definition INT_MAX :: int where "INT_MAX = 2147483647"
definition INT_MIN :: int where "INT_MIN = - 2147483648"

definition clamp_int :: "int \<Rightarrow> int" where
  "clamp_int n = (if n < INT_MIN then INT_MIN else if INT_MAX < n then INT_MAX else n)"

definition isspace_c :: "char \<Rightarrow> bool" where
  "isspace_c c = (of_char c \<in> {32::int, 9, 10, 11, 12, 13})"

definition isdigit_c :: "char \<Rightarrow> bool" where
  "isdigit_c c = (48 \<le> (of_char c :: int) \<and> (of_char c :: int) \<le> 57)"

definition digit_val :: "char \<Rightarrow> int" where
  "digit_val c = of_char c - 48"

definition digits_val :: "string \<Rightarrow> int" where
  "digits_val s = foldl (\<lambda>a c. a * 10 + digit_val c) 0 (takeWhile isdigit_c s)"

definition atoi :: "string \<Rightarrow> int" where
  "atoi s =
     (case dropWhile isspace_c s of
        [] \<Rightarrow> 0
      | c # cs \<Rightarrow>
          if c = CHR ''-'' then clamp_int (- digits_val cs)
          else if c = CHR ''+'' then clamp_int (digits_val cs)
          else clamp_int (digits_val (c # cs)))"

text \<open>\<^verbatim>\<open>std::to_string(int)\<close>: the decimal digits, after a minus sign for a negative
  value.\<close>

definition digit_char :: "int \<Rightarrow> char" where
  "digit_char d = char_of (48 + d)"

function dec_digits :: "int \<Rightarrow> string" where
  "dec_digits n = (if n < 10 then [digit_char n] else dec_digits (n div 10) @ [digit_char (n mod 10)])"
  by pat_completeness auto
termination
  by (relation "measure nat") auto

declare dec_digits.simps [simp del]

definition to_string :: "int \<Rightarrow> string" where
  "to_string n = (if n < 0 then CHR ''-'' # dec_digits (- n) else dec_digits n)"

subsection \<open>The document model\<close>

text \<open>
  Modelled from the spec: \<^verbatim>\<open>PathContext\<close>, the path triple, is declared in a header that
  is not part of the sources at hand. The spec describes it as an ordered triple (left,
  middle, right) of path strings and says that a path is stored verbatim, so the getters
  return the stored string and the setters store their argument; what the setters do with
  their second argument \<^verbatim>\<open>bNormalized\<close>, which the calls here pass as false, is not modelled.
\<close>

record PathContext =
  pc_left :: string
  pc_middle :: string
  pc_right :: string

definition PathContext_empty :: PathContext where
  "PathContext_empty = \<lparr>pc_left = [], pc_middle = [], pc_right = []\<rparr>"

definition GetLeft :: "PathContext \<Rightarrow> string" where "GetLeft p = pc_left p"
definition GetMiddle :: "PathContext \<Rightarrow> string" where "GetMiddle p = pc_middle p"
definition GetRight :: "PathContext \<Rightarrow> string" where "GetRight p = pc_right p"
definition SetLeft :: "string \<Rightarrow> PathContext \<Rightarrow> PathContext" where
  "SetLeft v p = p\<lparr>pc_left := v\<rparr>"
definition SetMiddle :: "string \<Rightarrow> PathContext \<Rightarrow> PathContext" where
  "SetMiddle v p = p\<lparr>pc_middle := v\<rparr>"
definition SetRight :: "string \<Rightarrow> PathContext \<Rightarrow> PathContext" where
  "SetRight v p = p\<lparr>pc_right := v\<rparr>"

text \<open>The members of \<^verbatim>\<open>ProjectFileItem\<close>, in the order of the constructor's initialiser
  list; the four members the constructor default-initialises come last.\<close>

record ProjectFileItem =
  m_paths :: PathContext
  m_bHasLeft :: bool
  m_bHasMiddle :: bool
  m_bHasRight :: bool
  m_bHasFilter :: bool
  m_bHasSubfolders :: bool
  m_bHasUnpacker :: bool
  m_bHasPrediffer :: bool
  m_subfolders :: int
  m_bLeftReadOnly :: bool
  m_bMiddleReadOnly :: bool
  m_bRightReadOnly :: bool
  m_bHasIgnoreWhite :: bool
  m_nIgnoreWhite :: int
  m_bHasIgnoreBlankLines :: bool
  m_bIgnoreBlankLines :: bool
  m_bHasIgnoreCase :: bool
  m_bIgnoreCase :: bool
  m_bHasIgnoreEol :: bool
  m_bIgnoreEol :: bool
  m_bHasIgnoreNumbers :: bool
  m_bIgnoreNumbers :: bool
  m_bHasIgnoreCodepage :: bool
  m_bIgnoreCodepage :: bool
  m_bHasFilterCommentsLines :: bool
  m_bFilterCommentsLines :: bool
  m_bHasCompareMethod :: bool
  m_bHasHiddenItems :: bool
  m_nCompareMethod :: int
  m_bSaveFilter :: bool
  m_bSaveSubfolders :: bool
  m_bSaveUnpacker :: bool
  m_bSaveIgnoreWhite :: bool
  m_bSaveIgnoreBlankLines :: bool
  m_bSaveIgnoreCase :: bool
  m_bSaveIgnoreEol :: bool
  m_bSaveIgnoreNumbers :: bool
  m_bSaveIgnoreCodepage :: bool
  m_bSaveFilterCommentsLines :: bool
  m_bSaveCompareMethod :: bool
  m_bSaveHiddenItems :: bool
  m_filter :: string
  m_unpacker :: string
  m_prediffer :: string
  m_vSavedHiddenItems :: "string list"

text \<open>\<^verbatim>\<open>ProjectFileItem::ProjectFileItem()\<close>.\<close>

definition ProjectFileItem_new :: ProjectFileItem where
  "ProjectFileItem_new =
     \<lparr>m_paths = PathContext_empty,
      m_bHasLeft = False, m_bHasMiddle = False, m_bHasRight = False, m_bHasFilter = False,
      m_bHasSubfolders = False, m_bHasUnpacker = False, m_bHasPrediffer = False,
      m_subfolders = - 1,
      m_bLeftReadOnly = False, m_bMiddleReadOnly = False, m_bRightReadOnly = False,
      m_bHasIgnoreWhite = False, m_nIgnoreWhite = 0,
      m_bHasIgnoreBlankLines = False, m_bIgnoreBlankLines = False,
      m_bHasIgnoreCase = False, m_bIgnoreCase = False,
      m_bHasIgnoreEol = False, m_bIgnoreEol = False,
      m_bHasIgnoreNumbers = False, m_bIgnoreNumbers = False,
      m_bHasIgnoreCodepage = False, m_bIgnoreCodepage = False,
      m_bHasFilterCommentsLines = False, m_bFilterCommentsLines = False,
      m_bHasCompareMethod = False, m_bHasHiddenItems = False, m_nCompareMethod = 0,
      m_bSaveFilter = True, m_bSaveSubfolders = True, m_bSaveUnpacker = True,
      m_bSaveIgnoreWhite = True, m_bSaveIgnoreBlankLines = True, m_bSaveIgnoreCase = True,
      m_bSaveIgnoreEol = True, m_bSaveIgnoreNumbers = True, m_bSaveIgnoreCodepage = True,
      m_bSaveFilterCommentsLines = True, m_bSaveCompareMethod = True,
      m_bSaveHiddenItems = True,
      m_filter = [], m_unpacker = [], m_prediffer = [], m_vSavedHiddenItems = []\<rparr>"

text \<open>
  Modelled from the spec: the inline accessors \<^verbatim>\<open>HasSubfolders\<close> and \<^verbatim>\<open>GetSubfolders\<close>
  are declared in the class header, which is not part of the sources at hand; they return
  the has flag and the stored value of the subfolders field.
\<close>

definition HasSubfolders :: "ProjectFileItem \<Rightarrow> bool" where
  "HasSubfolders item = m_bHasSubfolders item"

definition GetSubfolders :: "ProjectFileItem \<Rightarrow> int" where
  "GetSubfolders item = m_subfolders item"

text \<open>\<^verbatim>\<open>ProjectFileItem::GetPaths(files, bSubfolders)\<close>: the two reference parameters are
  passed in and returned.\<close>

definition GetPaths :: "ProjectFileItem \<Rightarrow> PathContext \<times> bool \<Rightarrow> PathContext \<times> bool" where
  "GetPaths item out =
     (let files = m_paths item;
          bSubfolders = (if HasSubfolders item then GetSubfolders item = 1 else snd out)
      in (files, bSubfolders))"

subsection \<open>The SAX handler\<close>

text \<open>
  The parser calls the handler once per event. \<open>Characters token\<close> is the call
  \<^verbatim>\<open>characters(ch, start, length)\<close> with \<open>token\<close> the \<open>length\<close> characters at
  \<open>ch + start\<close>. The handler's state is the list it points to and its stack of open
  element names, the top first. \<^verbatim>\<open>back()\<close> of an empty list, \<^verbatim>\<open>top()\<close> and \<^verbatim>\<open>pop()\<close> of an
  empty stack are undefined behaviour in C++; here they are faults.
\<close>

datatype event = StartElement string | EndElement string | Characters string

datatype fault = BackOfEmptyList | TopOfEmptyStack | PopOfEmptyStack

record ProjectFileHandler =
  m_pProject :: "ProjectFileItem list"
  m_stack :: "string list"

definition startElement :: "string \<Rightarrow> ProjectFileHandler \<Rightarrow> ProjectFileHandler" where
  "startElement localName h =
     (let h1 = (if localName = Paths_element_name
                then h\<lparr>m_pProject := m_pProject h @ [ProjectFileItem_new]\<rparr> else h)
      in h1\<lparr>m_stack := localName # m_stack h1\<rparr>)"

definition endElement :: "ProjectFileHandler \<Rightarrow> fault + ProjectFileHandler" where
  "endElement h =
     (case m_stack h of
        [] \<Rightarrow> Inl PopOfEmptyStack
      | _ # st \<Rightarrow> Inr (h\<lparr>m_stack := st\<rparr>))"

text \<open>The chain of comparisons of \<^verbatim>\<open>characters\<close>, lines 111 to 203, on the current item.\<close>

definition assign :: "string \<Rightarrow> string \<Rightarrow> ProjectFileItem \<Rightarrow> ProjectFileItem" where
  "assign nodename token currentItem =
     (if nodename = Left_element_name then
        currentItem\<lparr>m_paths := SetLeft (GetLeft (m_paths currentItem) @ token) (m_paths currentItem),
                     m_bHasLeft := True\<rparr>
      else if nodename = Middle_element_name then
        currentItem\<lparr>m_paths := SetMiddle (GetMiddle (m_paths currentItem) @ token) (m_paths currentItem),
                     m_bHasMiddle := True\<rparr>
      else if nodename = Right_element_name then
        currentItem\<lparr>m_paths := SetRight (GetRight (m_paths currentItem) @ token) (m_paths currentItem),
                     m_bHasRight := True\<rparr>
      else if nodename = Filter_element_name then
        currentItem\<lparr>m_filter := m_filter currentItem @ token, m_bHasFilter := True\<rparr>
      else if nodename = Subfolders_element_name then
        currentItem\<lparr>m_subfolders := atoi token, m_bHasSubfolders := True\<rparr>
      else if nodename = Left_ro_element_name then
        currentItem\<lparr>m_bLeftReadOnly := (atoi token \<noteq> 0)\<rparr>
      else if nodename = Middle_ro_element_name then
        currentItem\<lparr>m_bMiddleReadOnly := (atoi token \<noteq> 0)\<rparr>
      else if nodename = Right_ro_element_name then
        currentItem\<lparr>m_bRightReadOnly := (atoi token \<noteq> 0)\<rparr>
      else if nodename = Unpacker_element_name then
        currentItem\<lparr>m_unpacker := m_unpacker currentItem @ token, m_bHasUnpacker := True\<rparr>
      else if nodename = Prediffer_element_name then
        currentItem\<lparr>m_prediffer := m_prediffer currentItem @ token, m_bHasPrediffer := True\<rparr>
      else if nodename = White_spaces_element_name then
        currentItem\<lparr>m_nIgnoreWhite := atoi token, m_bHasIgnoreWhite := True\<rparr>
      else if nodename = Ignore_blank_lines_element_name then
        currentItem\<lparr>m_bIgnoreBlankLines := (atoi token \<noteq> 0), m_bHasIgnoreBlankLines := True\<rparr>
      else if nodename = Ignore_case_element_name then
        currentItem\<lparr>m_bIgnoreCase := (atoi token \<noteq> 0), m_bHasIgnoreCase := True\<rparr>
      else if nodename = Ignore_cr_diff_element_name then
        currentItem\<lparr>m_bIgnoreEol := (atoi token \<noteq> 0), m_bHasIgnoreEol := True\<rparr>
      else if nodename = Ignore_numbers_element_name then
        currentItem\<lparr>m_bIgnoreNumbers := (atoi token \<noteq> 0), m_bHasIgnoreNumbers := True\<rparr>
      else if nodename = Ignore_codepage_diff_element_name then
        currentItem\<lparr>m_bIgnoreCodepage := (atoi token \<noteq> 0), m_bHasIgnoreCodepage := True\<rparr>
      else if nodename = Ignore_comment_diff_element_name then
        currentItem\<lparr>m_bFilterCommentsLines := (atoi token \<noteq> 0),
                     m_bHasFilterCommentsLines := True\<rparr>
      else if nodename = Compare_method_element_name then
        currentItem\<lparr>m_nCompareMethod := atoi token, m_bHasCompareMethod := True\<rparr>
      else if nodename = Hidden_items_element_name then
        currentItem\<lparr>m_vSavedHiddenItems := m_vSavedHiddenItems currentItem @ [token],
                     m_bHasHiddenItems := True\<rparr>
      else currentItem)"

text \<open>\<^verbatim>\<open>characters\<close>: the guard of line 103 returns only when the stack size differs from
  three and the list is empty as well; otherwise \<^verbatim>\<open>back()\<close> and \<^verbatim>\<open>top()\<close> are taken and
  the current item is assigned in place.\<close>

definition characters :: "string \<Rightarrow> ProjectFileHandler \<Rightarrow> fault + ProjectFileHandler" where
  "characters token h =
     (if length (m_stack h) \<noteq> 3 \<and> length (m_pProject h) = 0 then Inr h
      else if m_pProject h = [] then Inl BackOfEmptyList
      else (case m_stack h of
              [] \<Rightarrow> Inl TopOfEmptyStack
            | nodename # _ \<Rightarrow>
                Inr (h\<lparr>m_pProject :=
                          butlast (m_pProject h) @ [assign nodename token (last (m_pProject h))]\<rparr>)))"

fun deliver :: "event \<Rightarrow> ProjectFileHandler \<Rightarrow> fault + ProjectFileHandler" where
  "deliver (StartElement localName) h = Inr (startElement localName h)"
| "deliver (EndElement localName) h = endElement h"
| "deliver (Characters token) h = characters token h"

text \<open>The parser's run over a document: the events in document order, until a fault.\<close>

fun parse :: "event list \<Rightarrow> ProjectFileHandler \<Rightarrow> fault + ProjectFileHandler" where
  "parse [] h = Inr h"
| "parse (e # es) h = (case deliver e h of Inl f \<Rightarrow> Inl f | Inr h' \<Rightarrow> parse es h')"

text \<open>
  \<^verbatim>\<open>ProjectFile::Read\<close>: a new handler on the file's own item list \<open>m_items\<close>, which is
  not cleared, and one run of the parser. The document is given by the events the parser
  delivers for it; a document the parser rejects raises in the parser and is no event
  list. The result is the item list after the run.
\<close>

definition Read :: "event list \<Rightarrow> ProjectFileItem list \<Rightarrow> fault + ProjectFileItem list" where
  "Read document m_items =
     (case parse document \<lparr>m_pProject = m_items, m_stack = []\<rparr> of
        Inl f \<Rightarrow> Inl f
      | Inr h \<Rightarrow> Inr (m_pProject h))"

subsection \<open>The writer\<close>

text \<open>
  \<^verbatim>\<open>ProjectFile::Save\<close> drives an XML writer; the model returns the calls it makes:
  one \<open>Characters\<close> event per text node written. The XML declaration and the white space
  of pretty printing are left out here. What a parser delivers for the document written
  may differ in its text events, see \<open>strip\<close>, \<open>join\<close> and lemma \<open>Read_delivered\<close>
  below.
\<close>

definition writeElement :: "string \<Rightarrow> string \<Rightarrow> event list" where
  "writeElement tagname chars = [StartElement tagname, Characters chars, EndElement tagname]"

definition saveHiddenItems :: "string list \<Rightarrow> event list" where
  "saveHiddenItems hiddenItems =
     StartElement Hidden_list_element_name
       # concat (map (writeElement Hidden_items_element_name) hiddenItems)
       @ [EndElement Hidden_list_element_name]"

definition bool_text :: "bool \<Rightarrow> string" where
  "bool_text b = (if b then ''1'' else ''0'')"

definition opt :: "bool \<Rightarrow> 'a list \<Rightarrow> 'a list" where
  "opt c es = (if c then es else [])"

definition save_item :: "ProjectFileItem \<Rightarrow> event list" where
  "save_item item =
     StartElement Paths_element_name #
     opt (GetLeft (m_paths item) \<noteq> [])
       (writeElement Left_element_name (GetLeft (m_paths item))) @
     opt (GetMiddle (m_paths item) \<noteq> [])
       (writeElement Middle_element_name (GetMiddle (m_paths item))) @
     opt (GetRight (m_paths item) \<noteq> [])
       (writeElement Right_element_name (GetRight (m_paths item))) @
     opt (m_bSaveFilter item \<and> m_filter item \<noteq> [])
       (writeElement Filter_element_name (m_filter item)) @
     opt (m_bSaveSubfolders item)
       (writeElement Subfolders_element_name (bool_text (m_subfolders item \<noteq> 0))) @
     writeElement Left_ro_element_name (bool_text (m_bLeftReadOnly item)) @
     opt (GetMiddle (m_paths item) \<noteq> [])
       (writeElement Middle_ro_element_name (bool_text (m_bMiddleReadOnly item))) @
     writeElement Right_ro_element_name (bool_text (m_bRightReadOnly item)) @
     opt (m_bSaveUnpacker item \<and> m_unpacker item \<noteq> [])
       (writeElement Unpacker_element_name (m_unpacker item)) @
     opt (m_prediffer item \<noteq> [])
       (writeElement Prediffer_element_name (m_prediffer item)) @
     opt (m_bSaveIgnoreWhite item)
       (writeElement White_spaces_element_name (to_string (m_nIgnoreWhite item))) @
     opt (m_bSaveIgnoreBlankLines item)
       (writeElement Ignore_blank_lines_element_name (bool_text (m_bIgnoreBlankLines item))) @
     opt (m_bSaveIgnoreCase item)
       (writeElement Ignore_case_element_name (bool_text (m_bIgnoreCase item))) @
     opt (m_bSaveIgnoreEol item)
       (writeElement Ignore_cr_diff_element_name (bool_text (m_bIgnoreEol item))) @
     opt (m_bSaveIgnoreNumbers item)
       (writeElement Ignore_numbers_element_name (bool_text (m_bIgnoreNumbers item))) @
     opt (m_bSaveIgnoreCodepage item)
       (writeElement Ignore_codepage_diff_element_name (bool_text (m_bIgnoreCodepage item))) @
     opt (m_bSaveFilterCommentsLines item)
       (writeElement Ignore_comment_diff_element_name (bool_text (m_bFilterCommentsLines item))) @
     opt (m_bSaveCompareMethod item)
       (writeElement Compare_method_element_name (to_string (m_nCompareMethod item))) @
     opt (m_bSaveHiddenItems item \<and> length (m_vSavedHiddenItems item) > 0)
       (saveHiddenItems (m_vSavedHiddenItems item)) @
     [EndElement Paths_element_name]"

definition Save :: "ProjectFileItem list \<Rightarrow> event list" where
  "Save m_items =
     StartElement Root_element_name # concat (map save_item m_items)
       @ [EndElement Root_element_name]"

subsection \<open>Reading a written document off its events\<close>

text \<open>\<open>started es\<close> lists the elements \<open>es\<close> opens, in document order;
  \<open>element_text n st es\<close> lists the text nodes that stand directly in an element named
  \<open>n\<close>, where \<open>st\<close> holds the elements open before \<open>es\<close>.\<close>

fun started :: "event list \<Rightarrow> string list" where
  "started [] = []"
| "started (StartElement n # es) = n # started es"
| "started (EndElement n # es) = started es"
| "started (Characters t # es) = started es"

fun element_text :: "string \<Rightarrow> string list \<Rightarrow> event list \<Rightarrow> string list" where
  "element_text n st [] = []"
| "element_text n st (StartElement m # es) = element_text n (m # st) es"
| "element_text n st (EndElement m # es) = element_text n (tl st) es"
| "element_text n st (Characters t # es) =
     (if st \<noteq> [] \<and> hd st = n then [t] else []) @ element_text n st es"

subsection \<open>What the handler makes of a written item\<close>

text \<open>The element names \<open>assign\<close> compares with, in the order of its chain.\<close>

definition leaf_names :: "string list" where
  "leaf_names =
     [Left_element_name, Middle_element_name, Right_element_name, Filter_element_name,
      Subfolders_element_name, Left_ro_element_name, Middle_ro_element_name,
      Right_ro_element_name, Unpacker_element_name, Prediffer_element_name,
      White_spaces_element_name, Ignore_blank_lines_element_name, Ignore_case_element_name,
      Ignore_cr_diff_element_name, Ignore_numbers_element_name,
      Ignore_codepage_diff_element_name, Ignore_comment_diff_element_name,
      Compare_method_element_name, Hidden_items_element_name]"

text \<open>A guarded \<^verbatim>\<open>writeElement\<close> of Save, as the handler sees it: the assignment is made when
  the element was written.\<close>

definition cond_assign :: "bool \<Rightarrow> string \<Rightarrow> string \<Rightarrow> ProjectFileItem \<Rightarrow> ProjectFileItem" where
  "cond_assign c n t x = (if c then assign n t x else x)"

definition cond_hidden :: "bool \<Rightarrow> string list \<Rightarrow> ProjectFileItem \<Rightarrow> ProjectFileItem" where
  "cond_hidden c hs x = (if c then fold (assign Hidden_items_element_name) hs x else x)"


text \<open>The item the handler builds from what Save writes for \<open>item\<close> (lemma
  \<open>parse_save_item\<close> below): every has flag tells whether the element was written, the
  persist flags are the constructor's, and a field whose element was not written keeps the
  constructor's value.\<close>

definition reread :: "ProjectFileItem \<Rightarrow> ProjectFileItem" where
  "reread item =
     \<lparr>m_paths = \<lparr>pc_left = GetLeft (m_paths item), pc_middle = GetMiddle (m_paths item),
                 pc_right = GetRight (m_paths item)\<rparr>,
      m_bHasLeft = (GetLeft (m_paths item) \<noteq> []),
      m_bHasMiddle = (GetMiddle (m_paths item) \<noteq> []),
      m_bHasRight = (GetRight (m_paths item) \<noteq> []),
      m_bHasFilter = (m_bSaveFilter item \<and> m_filter item \<noteq> []),
      m_bHasSubfolders = m_bSaveSubfolders item,
      m_bHasUnpacker = (m_bSaveUnpacker item \<and> m_unpacker item \<noteq> []),
      m_bHasPrediffer = (m_prediffer item \<noteq> []),
      m_subfolders =
        (if m_bSaveSubfolders item then (if m_subfolders item \<noteq> 0 then 1 else 0) else - 1),
      m_bLeftReadOnly = m_bLeftReadOnly item,
      m_bMiddleReadOnly = (GetMiddle (m_paths item) \<noteq> [] \<and> m_bMiddleReadOnly item),
      m_bRightReadOnly = m_bRightReadOnly item,
      m_bHasIgnoreWhite = m_bSaveIgnoreWhite item,
      m_nIgnoreWhite = (if m_bSaveIgnoreWhite item then clamp_int (m_nIgnoreWhite item) else 0),
      m_bHasIgnoreBlankLines = m_bSaveIgnoreBlankLines item,
      m_bIgnoreBlankLines = (m_bSaveIgnoreBlankLines item \<and> m_bIgnoreBlankLines item),
      m_bHasIgnoreCase = m_bSaveIgnoreCase item,
      m_bIgnoreCase = (m_bSaveIgnoreCase item \<and> m_bIgnoreCase item),
      m_bHasIgnoreEol = m_bSaveIgnoreEol item,
      m_bIgnoreEol = (m_bSaveIgnoreEol item \<and> m_bIgnoreEol item),
      m_bHasIgnoreNumbers = m_bSaveIgnoreNumbers item,
      m_bIgnoreNumbers = (m_bSaveIgnoreNumbers item \<and> m_bIgnoreNumbers item),
      m_bHasIgnoreCodepage = m_bSaveIgnoreCodepage item,
      m_bIgnoreCodepage = (m_bSaveIgnoreCodepage item \<and> m_bIgnoreCodepage item),
      m_bHasFilterCommentsLines = m_bSaveFilterCommentsLines item,
      m_bFilterCommentsLines = (m_bSaveFilterCommentsLines item \<and> m_bFilterCommentsLines item),
      m_bHasCompareMethod = m_bSaveCompareMethod item,
      m_bHasHiddenItems = (m_bSaveHiddenItems item \<and> m_vSavedHiddenItems item \<noteq> []),
      m_nCompareMethod = (if m_bSaveCompareMethod item then clamp_int (m_nCompareMethod item) else 0),
      m_bSaveFilter = True, m_bSaveSubfolders = True, m_bSaveUnpacker = True,
      m_bSaveIgnoreWhite = True, m_bSaveIgnoreBlankLines = True, m_bSaveIgnoreCase = True,
      m_bSaveIgnoreEol = True, m_bSaveIgnoreNumbers = True, m_bSaveIgnoreCodepage = True,
      m_bSaveFilterCommentsLines = True, m_bSaveCompareMethod = True,
      m_bSaveHiddenItems = True,
      m_filter = (if m_bSaveFilter item then m_filter item else []),
      m_unpacker = (if m_bSaveUnpacker item then m_unpacker item else []),
      m_prediffer = m_prediffer item,
      m_vSavedHiddenItems = (if m_bSaveHiddenItems item then m_vSavedHiddenItems item else [])\<rparr>"

subsection \<open>The round trip: hypotheses and what comes back\<close>





text \<open>Two items to run the round trip on.\<close>

definition two_way_item :: ProjectFileItem where
  "two_way_item =
     ProjectFileItem_new
       \<lparr>m_paths := \<lparr>pc_left = ''C:/a'', pc_middle = [], pc_right = ''C:/b''\<rparr>,
        m_bHasLeft := True, m_bHasRight := True,
        m_nIgnoreWhite := 2, m_bIgnoreCase := True, m_nCompareMethod := - 3,
        m_vSavedHiddenItems := [''x'', ''y''], m_bHasHiddenItems := True\<rparr>"

definition three_way_item :: ProjectFileItem where
  "three_way_item =
     ProjectFileItem_new
       \<lparr>m_paths := \<lparr>pc_left = ''l'', pc_middle = ''m'', pc_right = ''r''\<rparr>,
        m_subfolders := 0, m_bMiddleReadOnly := True, m_filter := ''*.cpp''\<rparr>"

subsection \<open>Text before the first paths element\<close>

text \<open>\<open>untouched st es\<close>: no text event of \<open>es\<close> reaches an element that \<open>assign\<close>
  knows before the first \<^verbatim>\<open>paths\<close> element opens; \<open>st\<close> holds the elements open
  before \<open>es\<close>.\<close>

fun untouched :: "string list \<Rightarrow> event list \<Rightarrow> bool" where
  "untouched st [] = True"
| "untouched st (StartElement n # es) = (n = Paths_element_name \<or> untouched (n # st) es)"
| "untouched st (EndElement n # es) = untouched (tl st) es"
| "untouched st (Characters t # es) =
     (st \<noteq> [] \<and> hd st \<notin> set leaf_names \<and> untouched st es)"

text \<open>The document \<^verbatim>\<open><a><b><left>x</left></b></a>\<close>: a text at depth three, in an
  element \<open>assign\<close> knows, and no \<^verbatim>\<open>paths\<close> element.\<close>

definition left_only :: "event list" where
  "left_only =
     [StartElement ''a'', StartElement ''b'', StartElement ''left'', Characters ''x'',
      EndElement ''left'', EndElement ''b'', EndElement ''a'']"

subsection \<open>Well-formed documents\<close>

text \<open>
  The event lists a parser delivers for a well-formed document: every element closes
  with the name it opened with, there is one root element, and text stands inside it.
  \<open>st\<close> holds the open elements and \<open>closed\<close> tells that the root has closed.
\<close>

fun wf_from :: "string list \<Rightarrow> bool \<Rightarrow> event list \<Rightarrow> bool" where
  "wf_from st closed [] = (st = [] \<and> closed)"
| "wf_from st closed (StartElement n # es) = (\<not> closed \<and> wf_from (n # st) False es)"
| "wf_from st closed (EndElement n # es) =
     (case st of [] \<Rightarrow> False | m # st' \<Rightarrow> m = n \<and> wf_from st' (st' = []) es)"
| "wf_from st closed (Characters t # es) = (st \<noteq> [] \<and> wf_from st closed es)"

definition well_formed :: "event list \<Rightarrow> bool" where
  "well_formed es = wf_from [] False es"

text \<open>The document \<^verbatim>\<open><project><settings><name>x</name></settings></project>\<close>.\<close>

definition no_paths_document :: "event list" where
  "no_paths_document =
     [StartElement ''project'', StartElement ''settings'', StartElement ''name'',
      Characters ''x'',
      EndElement ''name'', EndElement ''settings'', EndElement ''project'']"


subsection \<open>Has flags and text events\<close>

text \<open>The elements whose field has a has flag, and the flag of each.\<close>

definition has_names :: "string list" where
  "has_names =
     [Left_element_name, Middle_element_name, Right_element_name, Filter_element_name,
      Subfolders_element_name, Unpacker_element_name, Prediffer_element_name,
      White_spaces_element_name, Ignore_blank_lines_element_name, Ignore_case_element_name,
      Ignore_cr_diff_element_name, Ignore_numbers_element_name,
      Ignore_codepage_diff_element_name, Ignore_comment_diff_element_name,
      Compare_method_element_name, Hidden_items_element_name]"

definition has_flag :: "string \<Rightarrow> ProjectFileItem \<Rightarrow> bool" where
  "has_flag n item =
     (if n = Left_element_name then m_bHasLeft item
      else if n = Middle_element_name then m_bHasMiddle item
      else if n = Right_element_name then m_bHasRight item
      else if n = Filter_element_name then m_bHasFilter item
      else if n = Subfolders_element_name then m_bHasSubfolders item
      else if n = Unpacker_element_name then m_bHasUnpacker item
      else if n = Prediffer_element_name then m_bHasPrediffer item
      else if n = White_spaces_element_name then m_bHasIgnoreWhite item
      else if n = Ignore_blank_lines_element_name then m_bHasIgnoreBlankLines item
      else if n = Ignore_case_element_name then m_bHasIgnoreCase item
      else if n = Ignore_cr_diff_element_name then m_bHasIgnoreEol item
      else if n = Ignore_numbers_element_name then m_bHasIgnoreNumbers item
      else if n = Ignore_codepage_diff_element_name then m_bHasIgnoreCodepage item
      else if n = Ignore_comment_diff_element_name then m_bHasFilterCommentsLines item
      else if n = Compare_method_element_name then m_bHasCompareMethod item
      else if n = Hidden_items_element_name then m_bHasHiddenItems item
      else False)"

text \<open>
  Read off the events alone: \<open>text_seen n st seen es\<close> tells for each item, in order,
  whether a text event has arrived with \<open>n\<close> on top of the stack while the item was the
  last of the list. \<open>st\<close> holds the open elements and \<open>seen\<close> the answers before \<open>es\<close>.
  An element that opens and closes changes no answer; a text event does, whatever its
  payload.
\<close>

fun text_seen :: "string \<Rightarrow> string list \<Rightarrow> bool list \<Rightarrow> event list \<Rightarrow> bool list" where
  "text_seen n st seen [] = seen"
| "text_seen n st seen (StartElement m # es) =
     text_seen n (m # st) (if m = Paths_element_name then seen @ [False] else seen) es"
| "text_seen n st seen (EndElement m # es) = text_seen n (tl st) seen es"
| "text_seen n st seen (Characters t # es) =
     text_seen n st
       (if seen \<noteq> [] \<and> st \<noteq> [] \<and> hd st = n then butlast seen @ [True] else seen) es"

text \<open>The document \<^verbatim>\<open><project><paths><white-spaces></white-spaces></paths></project>\<close>
  as a parser that makes no call for an empty text delivers it, the same with one call
  for the empty text, and the document with no \<^verbatim>\<open>white-spaces\<close> element.\<close>

definition empty_white_spaces :: "event list" where
  "empty_white_spaces =
     [StartElement ''project'', StartElement ''paths'', StartElement ''white-spaces'',
      EndElement ''white-spaces'', EndElement ''paths'', EndElement ''project'']"

definition empty_text_white_spaces :: "event list" where
  "empty_text_white_spaces =
     [StartElement ''project'', StartElement ''paths'', StartElement ''white-spaces'',
      Characters [],
      EndElement ''white-spaces'', EndElement ''paths'', EndElement ''project'']"

definition no_white_spaces :: "event list" where
  "no_white_spaces =
     [StartElement ''project'', StartElement ''paths'', EndElement ''paths'',
      EndElement ''project'']"

subsection \<open>String-valued fields\<close>

text \<open>The elements of the string-valued fields, and the field of each.\<close>

definition string_names :: "string list" where
  "string_names =
     [Left_element_name, Middle_element_name, Right_element_name, Filter_element_name,
      Unpacker_element_name, Prediffer_element_name]"

definition string_field :: "string \<Rightarrow> ProjectFileItem \<Rightarrow> string" where
  "string_field n item =
     (if n = Left_element_name then GetLeft (m_paths item)
      else if n = Middle_element_name then GetMiddle (m_paths item)
      else if n = Right_element_name then GetRight (m_paths item)
      else if n = Filter_element_name then m_filter item
      else if n = Unpacker_element_name then m_unpacker item
      else m_prediffer item)"

text \<open>The document \<^verbatim>\<open><project><paths><left>C:/dir/a</left></paths></project>\<close>, its text
  delivered in three pieces.\<close>

definition left_in_pieces :: "event list" where
  "left_in_pieces =
     [StartElement ''project'', StartElement ''paths'', StartElement ''left'',
      Characters ''C:/'', Characters ''dir'', Characters ''/a'',
      EndElement ''left'', EndElement ''paths'', EndElement ''project'']"

text \<open>The handler after \<^verbatim>\<open><project>\<close>, on an empty list.\<close>

definition in_project :: ProjectFileHandler where
  "in_project = \<lparr>m_pProject = [], m_stack = [''project'']\<rparr>"

text \<open>The handler after \<^verbatim>\<open><project><paths><filter>\<close>, and after the text \<^verbatim>\<open>*.c\<close>.\<close>

definition in_filter :: ProjectFileHandler where
  "in_filter =
     \<lparr>m_pProject = [ProjectFileItem_new],
      m_stack = [Filter_element_name, Paths_element_name, ''project'']\<rparr>"

definition in_filter_text :: ProjectFileHandler where
  "in_filter_text =
     \<lparr>m_pProject = [ProjectFileItem_new\<lparr>m_filter := ''*.c'', m_bHasFilter := True\<rparr>],
      m_stack = [Filter_element_name, Paths_element_name, ''project'']\<rparr>"

subsection \<open>Text events a parser adds or leaves out\<close>

text \<open>
  A parser may deliver more text events than Save wrote text nodes: the white space of
  pretty printing stands between the elements, in \<^verbatim>\<open>project\<close>, \<^verbatim>\<open>paths\<close> and
  \<^verbatim>\<open>hidden-list\<close>. \<open>strip st es\<close> removes from \<open>es\<close> the text events that arrive with an
  element on top of the stack that \<open>assign\<close> does not know; \<open>harmless b st es\<close> tells that
  none of these arrives at depth three while the list is empty, where \<open>b\<close> tells whether
  the list is not empty before \<open>es\<close>. \<open>drop_empty_text\<close> removes the text events with an
  empty payload, which a parser does not deliver.
\<close>

fun strip :: "string list \<Rightarrow> event list \<Rightarrow> event list" where
  "strip st [] = []"
| "strip st (StartElement n # es) = StartElement n # strip (n # st) es"
| "strip st (EndElement n # es) = EndElement n # strip (tl st) es"
| "strip st (Characters t # es) =
     (if st \<noteq> [] \<and> hd st \<notin> set leaf_names then strip st es else Characters t # strip st es)"

fun harmless :: "bool \<Rightarrow> string list \<Rightarrow> event list \<Rightarrow> bool" where
  "harmless b st [] = True"
| "harmless b st (StartElement n # es) = harmless (b \<or> n = Paths_element_name) (n # st) es"
| "harmless b st (EndElement n # es) = harmless b (tl st) es"
| "harmless b st (Characters t # es) =
     ((st \<noteq> [] \<and> hd st \<notin> set leaf_names \<longrightarrow> b \<or> length st \<noteq> 3) \<and> harmless b st es)"

definition drop_empty_text :: "event list \<Rightarrow> event list" where
  "drop_empty_text es = filter (\<lambda>e. e \<noteq> Characters []) es"

text \<open>
  A parser may also deliver the text of one element in several text events.
  \<open>join st es\<close> joins the text events that follow one another in the element of a
  string-valued field into one; the text events of every other element stay as they are.
  \<open>elements es\<close> are the open and close events of \<open>es\<close>.
\<close>

fun join :: "string list \<Rightarrow> event list \<Rightarrow> event list" where
  "join st [] = []"
| "join st (StartElement n # es) = StartElement n # join (n # st) es"
| "join st (EndElement n # es) = EndElement n # join (tl st) es"
| "join st (Characters t # es) =
     (if st \<noteq> [] \<and> hd st \<in> set string_names
      then (case join st es of
              Characters u # r \<Rightarrow> Characters (t @ u) # r
            | r \<Rightarrow> Characters t # r)
      else Characters t # join st es)"





section \<open>Properties\<close>

lemmas element_names =
  Root_element_name_def Paths_element_name_def Left_element_name_def Middle_element_name_def
  Right_element_name_def Filter_element_name_def Subfolders_element_name_def
  Left_ro_element_name_def Middle_ro_element_name_def Right_ro_element_name_def
  Unpacker_element_name_def Prediffer_element_name_def White_spaces_element_name_def
  Ignore_blank_lines_element_name_def Ignore_case_element_name_def
  Ignore_cr_diff_element_name_def Ignore_numbers_element_name_def
  Ignore_codepage_diff_element_name_def Ignore_comment_diff_element_name_def
  Compare_method_element_name_def Hidden_list_element_name_def Hidden_items_element_name_def

subsection \<open>What Save writes for one item\<close>

lemma started_append: "started (xs @ ys) = started xs @ started ys"
  by (induction xs rule: started.induct) simp_all

lemma started_writeElement: "started (writeElement m t) = [m]"
  by (simp add: writeElement_def)

lemma started_opt: "started (opt c es) = opt c (started es)"
  by (simp add: opt_def)

lemma started_items: "started (concat (map (writeElement m) hs)) = replicate (length hs) m"
  by (induction hs) (simp_all add: started_append started_writeElement)

lemma started_saveHiddenItems:
  "started (saveHiddenItems hs) = Hidden_list_element_name # replicate (length hs) Hidden_items_element_name"
  by (simp add: saveHiddenItems_def started_append started_items)

lemma in_set_opt: "x \<in> set (opt c xs) \<longleftrightarrow> c \<and> x \<in> set xs"
  by (simp add: opt_def)

lemma started_save_item:
  "started (save_item item) =
     Paths_element_name #
     opt (GetLeft (m_paths item) \<noteq> []) [Left_element_name] @
     opt (GetMiddle (m_paths item) \<noteq> []) [Middle_element_name] @
     opt (GetRight (m_paths item) \<noteq> []) [Right_element_name] @
     opt (m_bSaveFilter item \<and> m_filter item \<noteq> []) [Filter_element_name] @
     opt (m_bSaveSubfolders item) [Subfolders_element_name] @
     [Left_ro_element_name] @
     opt (GetMiddle (m_paths item) \<noteq> []) [Middle_ro_element_name] @
     [Right_ro_element_name] @
     opt (m_bSaveUnpacker item \<and> m_unpacker item \<noteq> []) [Unpacker_element_name] @
     opt (m_prediffer item \<noteq> []) [Prediffer_element_name] @
     opt (m_bSaveIgnoreWhite item) [White_spaces_element_name] @
     opt (m_bSaveIgnoreBlankLines item) [Ignore_blank_lines_element_name] @
     opt (m_bSaveIgnoreCase item) [Ignore_case_element_name] @
     opt (m_bSaveIgnoreEol item) [Ignore_cr_diff_element_name] @
     opt (m_bSaveIgnoreNumbers item) [Ignore_numbers_element_name] @
     opt (m_bSaveIgnoreCodepage item) [Ignore_codepage_diff_element_name] @
     opt (m_bSaveFilterCommentsLines item) [Ignore_comment_diff_element_name] @
     opt (m_bSaveCompareMethod item) [Compare_method_element_name] @
     opt (m_bSaveHiddenItems item \<and> length (m_vSavedHiddenItems item) > 0)
       (Hidden_list_element_name
          # replicate (length (m_vSavedHiddenItems item)) Hidden_items_element_name)"
  unfolding save_item_def
  by (simp only: started.simps started_append started_writeElement started_opt
      started_saveHiddenItems append_Nil2)

lemma element_text_writeElement:
  "element_text n st (writeElement m t @ es) = (if m = n then [t] else []) @ element_text n st es"
  by (simp add: writeElement_def)

lemma element_text_opt:
  "element_text n st (opt c (writeElement m t) @ es) =
     (if c \<and> m = n then [t] else []) @ element_text n st es"
  by (simp add: opt_def element_text_writeElement)

lemma element_text_items:
  "element_text n st (concat (map (writeElement m) hs) @ es) =
     (if m = n then hs else []) @ element_text n st es"
  by (induction hs) (simp_all add: writeElement_def)

lemma element_text_saveHiddenItems:
  "element_text n st (opt c (saveHiddenItems hs) @ es) =
     (if c \<and> Hidden_items_element_name = n then hs else []) @ element_text n st es"
  by (simp add: opt_def saveHiddenItems_def element_text_items)

lemma element_text_save_item:
  "element_text n [] (save_item item) = 
     (if GetLeft (m_paths item) \<noteq> [] \<and> Left_element_name = n then [GetLeft (m_paths item)] else []) @
     (if GetMiddle (m_paths item) \<noteq> [] \<and> Middle_element_name = n then [GetMiddle (m_paths item)] else []) @
     (if GetRight (m_paths item) \<noteq> [] \<and> Right_element_name = n then [GetRight (m_paths item)] else []) @
     (if (m_bSaveFilter item \<and> m_filter item \<noteq> []) \<and> Filter_element_name = n then [m_filter item] else []) @
     (if m_bSaveSubfolders item \<and> Subfolders_element_name = n
        then [bool_text (m_subfolders item \<noteq> 0)] else []) @
     (if Left_ro_element_name = n then [bool_text (m_bLeftReadOnly item)] else []) @
     (if GetMiddle (m_paths item) \<noteq> [] \<and> Middle_ro_element_name = n
        then [bool_text (m_bMiddleReadOnly item)] else []) @
     (if Right_ro_element_name = n then [bool_text (m_bRightReadOnly item)] else []) @
     (if (m_bSaveUnpacker item \<and> m_unpacker item \<noteq> []) \<and> Unpacker_element_name = n then [m_unpacker item] else []) @
     (if m_prediffer item \<noteq> [] \<and> Prediffer_element_name = n then [m_prediffer item] else []) @
     (if m_bSaveIgnoreWhite item \<and> White_spaces_element_name = n
        then [to_string (m_nIgnoreWhite item)] else []) @
     (if m_bSaveIgnoreBlankLines item \<and> Ignore_blank_lines_element_name = n
        then [bool_text (m_bIgnoreBlankLines item)] else []) @
     (if m_bSaveIgnoreCase item \<and> Ignore_case_element_name = n
        then [bool_text (m_bIgnoreCase item)] else []) @
     (if m_bSaveIgnoreEol item \<and> Ignore_cr_diff_element_name = n
        then [bool_text (m_bIgnoreEol item)] else []) @
     (if m_bSaveIgnoreNumbers item \<and> Ignore_numbers_element_name = n
        then [bool_text (m_bIgnoreNumbers item)] else []) @
     (if m_bSaveIgnoreCodepage item \<and> Ignore_codepage_diff_element_name = n
        then [bool_text (m_bIgnoreCodepage item)] else []) @
     (if m_bSaveFilterCommentsLines item \<and> Ignore_comment_diff_element_name = n
        then [bool_text (m_bFilterCommentsLines item)] else []) @
     (if m_bSaveCompareMethod item \<and> Compare_method_element_name = n
        then [to_string (m_nCompareMethod item)] else []) @
     (if (m_bSaveHiddenItems item \<and> length (m_vSavedHiddenItems item) > 0) \<and> Hidden_items_element_name = n
        then m_vSavedHiddenItems item else [])"
  unfolding save_item_def
  by (simp only: element_text.simps element_text_writeElement element_text_opt element_text_saveHiddenItems append_assoc list.sel append_Nil2)

subsection \<open>The writer's conditions\<close>

text \<open>
  Claim C4, as the code has it. For every item, Save writes the \<^verbatim>\<open>subfolders\<close> element
  if and only if the item's \<open>m_bSaveSubfolders\<close> flag is set, whatever the has flag and the
  stored value are; the text written is \<^verbatim>\<open>1\<close> when the stored integer is not zero and
  \<^verbatim>\<open>0\<close> when it is zero. The unset sentinel \<open>-1\<close> is not zero, so it is written as
  \<^verbatim>\<open>1\<close>.
\<close>

theorem Save_subfolders:
  "(Subfolders_element_name \<in> set (started (save_item item)) \<longleftrightarrow> m_bSaveSubfolders item)
   \<and> element_text Subfolders_element_name [] (save_item item) =
       (if m_bSaveSubfolders item then [if m_subfolders item \<noteq> 0 then ''1'' else ''0''] else [])
   \<and> element_text Subfolders_element_name []
         (save_item (item\<lparr>m_subfolders := - 1, m_bSaveSubfolders := True\<rparr>)) = [''1'']"
proof (intro conjI)
  show "Subfolders_element_name \<in> set (started (save_item item)) \<longleftrightarrow> m_bSaveSubfolders item"
    unfolding started_save_item by (simp add: in_set_opt) (simp add: element_names)
  show "element_text Subfolders_element_name [] (save_item item) =
       (if m_bSaveSubfolders item then [if m_subfolders item \<noteq> 0 then ''1'' else ''0''] else [])"
    unfolding element_text_save_item by (simp add: element_names bool_text_def)
  show "element_text Subfolders_element_name []
         (save_item (item\<lparr>m_subfolders := - 1, m_bSaveSubfolders := True\<rparr>)) = [''1'']"
    unfolding element_text_save_item by (simp add: element_names bool_text_def)
qed

text \<open>At the item the constructor builds, and at one with the flag cleared and the value 0.\<close>

theorem Save_subfolders_witness:
  "(Subfolders_element_name \<in> set (started (save_item ProjectFileItem_new)))
   \<and> element_text Subfolders_element_name [] (save_item ProjectFileItem_new) = [''1'']
   \<and> Subfolders_element_name \<notin> set (started (save_item
         (ProjectFileItem_new\<lparr>m_bSaveSubfolders := False\<rparr>)))
   \<and> element_text Subfolders_element_name []
         (save_item (ProjectFileItem_new\<lparr>m_subfolders := 0\<rparr>)) = [''0'']"
  using Save_subfolders [of ProjectFileItem_new]
    Save_subfolders [of "ProjectFileItem_new\<lparr>m_bSaveSubfolders := False\<rparr>"]
    Save_subfolders [of "ProjectFileItem_new\<lparr>m_subfolders := 0\<rparr>"]
  by (simp add: ProjectFileItem_new_def)

text \<open>The claim's last clause fails: the item the constructor builds holds \<open>-1\<close>, and the
  text written for it is not \<^verbatim>\<open>0\<close>.\<close>

theorem subfolders_sentinel_counterexample:
  "m_subfolders ProjectFileItem_new = - 1
   \<and> m_bSaveSubfolders ProjectFileItem_new
   \<and> element_text Subfolders_element_name [] (save_item ProjectFileItem_new) = [''1'']
   \<and> element_text Subfolders_element_name [] (save_item ProjectFileItem_new) \<noteq> [''0'']"
  unfolding element_text_save_item
  by (simp add: element_names) (simp add: ProjectFileItem_new_def bool_text_def)

text \<open>
  Claim C5. For every item, Save writes \<^verbatim>\<open>left-readonly\<close> and \<^verbatim>\<open>right-readonly\<close>, each
  once and with the text of the item's flag, whatever its paths and other flags are; it
  writes \<^verbatim>\<open>middle-readonly\<close> if and only if the middle path is not empty.
\<close>

theorem Save_readonly:
  "Left_ro_element_name \<in> set (started (save_item item))
   \<and> Right_ro_element_name \<in> set (started (save_item item))
   \<and> (Middle_ro_element_name \<in> set (started (save_item item)) \<longleftrightarrow> GetMiddle (m_paths item) \<noteq> [])
   \<and> element_text Left_ro_element_name [] (save_item item) = [bool_text (m_bLeftReadOnly item)]
   \<and> element_text Right_ro_element_name [] (save_item item) = [bool_text (m_bRightReadOnly item)]
   \<and> element_text Middle_ro_element_name [] (save_item item) =
       (if GetMiddle (m_paths item) \<noteq> [] then [bool_text (m_bMiddleReadOnly item)] else [])"
proof (intro conjI)
  show "Left_ro_element_name \<in> set (started (save_item item))"
    unfolding started_save_item by simp
  show "Right_ro_element_name \<in> set (started (save_item item))"
    unfolding started_save_item by simp
  show "Middle_ro_element_name \<in> set (started (save_item item)) \<longleftrightarrow> GetMiddle (m_paths item) \<noteq> []"
    unfolding started_save_item by (simp add: in_set_opt) (simp add: element_names)
  show "element_text Left_ro_element_name [] (save_item item) = [bool_text (m_bLeftReadOnly item)]"
    unfolding element_text_save_item by (simp add: element_names)
  show "element_text Right_ro_element_name [] (save_item item) = [bool_text (m_bRightReadOnly item)]"
    unfolding element_text_save_item by (simp add: element_names)
  show "element_text Middle_ro_element_name [] (save_item item) =
       (if GetMiddle (m_paths item) \<noteq> [] then [bool_text (m_bMiddleReadOnly item)] else [])"
    unfolding element_text_save_item by (simp add: element_names)
qed

text \<open>The item the constructor builds has an empty middle path and default flags: its
  output has \<^verbatim>\<open>left-readonly\<close> and \<^verbatim>\<open>right-readonly\<close> and no \<^verbatim>\<open>middle-readonly\<close>.\<close>

theorem Save_readonly_witness:
  "Left_ro_element_name \<in> set (started (save_item ProjectFileItem_new))
   \<and> Right_ro_element_name \<in> set (started (save_item ProjectFileItem_new))
   \<and> Middle_ro_element_name \<notin> set (started (save_item ProjectFileItem_new))
   \<and> element_text Left_ro_element_name [] (save_item ProjectFileItem_new) = [''0'']
   \<and> element_text Middle_ro_element_name [] (save_item ProjectFileItem_new) = []"
  using Save_readonly [of ProjectFileItem_new]
  by (simp add: ProjectFileItem_new_def PathContext_empty_def GetMiddle_def bool_text_def)

subsection \<open>The projection to paths and recursion\<close>

text \<open>
  Claim C9. For every item and every value of the caller's \<open>bSubfolders\<close>, GetPaths copies
  the item's path triple into \<open>files\<close>; it overwrites \<open>bSubfolders\<close> if and only if the
  item's subfolders has flag is set, and then with the truth of "the stored value is 1", so
  that 0 and every other value give false; with the has flag clear the caller's value stays.
\<close>

theorem GetPaths_recurse:
  "GetPaths item (files, bSubfolders) =
     (m_paths item, if m_bHasSubfolders item then m_subfolders item = 1 else bSubfolders)"
  by (simp add: GetPaths_def HasSubfolders_def GetSubfolders_def)

theorem GetPaths_recurse_witness:
  "GetPaths (ProjectFileItem_new\<lparr>m_bHasSubfolders := True, m_subfolders := 2\<rparr>) (PathContext_empty, True)
     = (PathContext_empty, False)
   \<and> GetPaths (ProjectFileItem_new\<lparr>m_bHasSubfolders := True, m_subfolders := 1\<rparr>) (PathContext_empty, False)
     = (PathContext_empty, True)
   \<and> GetPaths (ProjectFileItem_new\<lparr>m_bHasSubfolders := True, m_subfolders := 0\<rparr>) (PathContext_empty, True)
     = (PathContext_empty, False)
   \<and> GetPaths ProjectFileItem_new (PathContext_empty, True) = (PathContext_empty, True)"
  using GetPaths_recurse [of "ProjectFileItem_new\<lparr>m_bHasSubfolders := True, m_subfolders := 2\<rparr>" PathContext_empty True]
    GetPaths_recurse [of "ProjectFileItem_new\<lparr>m_bHasSubfolders := True, m_subfolders := 1\<rparr>" PathContext_empty False]
    GetPaths_recurse [of "ProjectFileItem_new\<lparr>m_bHasSubfolders := True, m_subfolders := 0\<rparr>" PathContext_empty True]
    GetPaths_recurse [of ProjectFileItem_new PathContext_empty True]
  by (simp add: ProjectFileItem_new_def)

subsection \<open>atoi reads back what to\_string writes\<close>

lemma of_char_digit_char: "0 \<le> d \<Longrightarrow> d < 10 \<Longrightarrow> (of_char (digit_char d) :: int) = 48 + d"
  by (simp add: digit_char_def)

lemma isdigit_digit_char: "0 \<le> d \<Longrightarrow> d < 10 \<Longrightarrow> isdigit_c (digit_char d)"
  by (simp add: isdigit_c_def of_char_digit_char)

lemma digit_val_digit_char: "0 \<le> d \<Longrightarrow> d < 10 \<Longrightarrow> digit_val (digit_char d) = d"
  by (simp add: digit_val_def of_char_digit_char)

lemma not_space_digit: "isdigit_c c \<Longrightarrow> \<not> isspace_c c"
  by (auto simp: isdigit_c_def isspace_c_def)

lemma not_sign_digit: "isdigit_c c \<Longrightarrow> c \<noteq> CHR ''-'' \<and> c \<noteq> CHR ''+''"
  by (auto simp: isdigit_c_def)

lemma dec_digits_all: "0 \<le> n \<Longrightarrow> \<forall>c \<in> set (dec_digits n). isdigit_c c"
proof (induction n rule: dec_digits.induct)
  case (1 n)
  show ?case
  proof (cases "n < 10")
    case True
    then show ?thesis using 1 by (subst dec_digits.simps) (simp add: isdigit_digit_char)
  next
    case False
    then show ?thesis using 1 by (subst dec_digits.simps) (simp add: isdigit_digit_char)
  qed
qed

lemma dec_digits_nonempty: "dec_digits n \<noteq> []"
  by (subst dec_digits.simps) simp

lemma digits_val_all:
  "\<forall>c \<in> set s. isdigit_c c \<Longrightarrow> digits_val s = foldl (\<lambda>a c. a * 10 + digit_val c) 0 s"
  by (simp add: digits_val_def takeWhile_eq_all_conv[THEN iffD2])

lemma digits_val_dec_digits: 
  assumes "0 \<le> n" shows "digits_val (dec_digits n) = n"
proof -
  have "0 \<le> n \<Longrightarrow> foldl (\<lambda>a c. a * 10 + digit_val c) 0 (dec_digits n) = n"
  proof (induction n rule: dec_digits.induct)
    case (1 n)
    show ?case
    proof (cases "n < 10")
      case True
      then show ?thesis using 1 by (subst dec_digits.simps) (simp add: digit_val_digit_char)
    next
      case False
      then show ?thesis using 1 by (subst dec_digits.simps) (simp add: digit_val_digit_char)
    qed
  qed
  then show ?thesis using digits_val_all [OF dec_digits_all] assms by simp
qed

lemma atoi_dec_digits: 
  assumes "0 \<le> n" shows "atoi (dec_digits n) = clamp_int n"
proof -
  obtain c cs where cs: "dec_digits n = c # cs"
    using dec_digits_nonempty [of n] by (cases "dec_digits n") auto
  then have d: "isdigit_c c" using dec_digits_all [of n] assms by simp
  have "dropWhile isspace_c (dec_digits n) = c # cs"
    using cs d by (simp add: not_space_digit)
  then show ?thesis
    using d not_sign_digit [OF d] digits_val_dec_digits [of n] cs assms by (simp add: atoi_def)
qed

lemma atoi_to_string: "INT_MIN \<le> n \<Longrightarrow> n \<le> INT_MAX \<Longrightarrow> atoi (to_string n) = n"
proof (cases "n < 0")
  case False
  assume "INT_MIN \<le> n" "n \<le> INT_MAX"
  then show ?thesis using False by (simp add: to_string_def atoi_dec_digits clamp_int_def)
next
  case True
  assume r: "INT_MIN \<le> n" "n \<le> INT_MAX"
  have "\<not> isspace_c CHR ''-''" by (simp add: isspace_c_def)
  then have "atoi (CHR ''-'' # dec_digits (- n)) = clamp_int (- digits_val (dec_digits (- n)))"
    by (simp add: atoi_def)
  then show ?thesis using True r by (simp add: to_string_def digits_val_dec_digits clamp_int_def)
qed

lemma atoi_bool_text: "(atoi (bool_text b) \<noteq> 0) = b"
  by (simp add: bool_text_def atoi_def isspace_c_def digits_val_def isdigit_c_def digit_val_def clamp_int_def INT_MIN_def INT_MAX_def)

lemma atoi_empty: "atoi [] = 0"
  by (simp add: atoi_def)

lemma atoi_bool_text_val: "atoi (bool_text b) = (if b then 1 else 0)"
  by (simp add: bool_text_def atoi_def isspace_c_def digits_val_def isdigit_c_def digit_val_def clamp_int_def INT_MIN_def INT_MAX_def)

subsection \<open>The handler on the events of Save\<close>

lemma assign_unknown: "nodename \<notin> set leaf_names \<Longrightarrow> assign nodename token item = item"
  by (simp add: leaf_names_def assign_def)

lemma assign_Left:
  "assign Left_element_name t x =
     x\<lparr>m_paths := SetLeft (GetLeft (m_paths x) @ t) (m_paths x), m_bHasLeft := True\<rparr>"
  by (simp add: assign_def)

lemma assign_Middle:
  "assign Middle_element_name t x =
     x\<lparr>m_paths := SetMiddle (GetMiddle (m_paths x) @ t) (m_paths x), m_bHasMiddle := True\<rparr>"
  by (simp add: assign_def element_names)

lemma assign_Right:
  "assign Right_element_name t x =
     x\<lparr>m_paths := SetRight (GetRight (m_paths x) @ t) (m_paths x), m_bHasRight := True\<rparr>"
  by (simp add: assign_def element_names)

lemma assign_Filter:
  "assign Filter_element_name t x = x\<lparr>m_filter := m_filter x @ t, m_bHasFilter := True\<rparr>"
  by (simp add: assign_def element_names)

lemma assign_Subfolders:
  "assign Subfolders_element_name t x = x\<lparr>m_subfolders := atoi t, m_bHasSubfolders := True\<rparr>"
  by (simp add: assign_def element_names)

lemma assign_Left_ro:
  "assign Left_ro_element_name t x = x\<lparr>m_bLeftReadOnly := (atoi t \<noteq> 0)\<rparr>"
  by (simp add: assign_def element_names)

lemma assign_Middle_ro:
  "assign Middle_ro_element_name t x = x\<lparr>m_bMiddleReadOnly := (atoi t \<noteq> 0)\<rparr>"
  by (simp add: assign_def element_names)

lemma assign_Right_ro:
  "assign Right_ro_element_name t x = x\<lparr>m_bRightReadOnly := (atoi t \<noteq> 0)\<rparr>"
  by (simp add: assign_def element_names)

lemma assign_Unpacker:
  "assign Unpacker_element_name t x = x\<lparr>m_unpacker := m_unpacker x @ t, m_bHasUnpacker := True\<rparr>"
  by (simp add: assign_def element_names)

lemma assign_Prediffer:
  "assign Prediffer_element_name t x = x\<lparr>m_prediffer := m_prediffer x @ t, m_bHasPrediffer := True\<rparr>"
  by (simp add: assign_def element_names)

lemma assign_White_spaces:
  "assign White_spaces_element_name t x = x\<lparr>m_nIgnoreWhite := atoi t, m_bHasIgnoreWhite := True\<rparr>"
  by (simp add: assign_def element_names)

lemma assign_Ignore_blank_lines:
  "assign Ignore_blank_lines_element_name t x =
     x\<lparr>m_bIgnoreBlankLines := (atoi t \<noteq> 0), m_bHasIgnoreBlankLines := True\<rparr>"
  by (simp add: assign_def element_names)

lemma assign_Ignore_case:
  "assign Ignore_case_element_name t x =
     x\<lparr>m_bIgnoreCase := (atoi t \<noteq> 0), m_bHasIgnoreCase := True\<rparr>"
  by (simp add: assign_def element_names)

lemma assign_Ignore_cr_diff:
  "assign Ignore_cr_diff_element_name t x =
     x\<lparr>m_bIgnoreEol := (atoi t \<noteq> 0), m_bHasIgnoreEol := True\<rparr>"
  by (simp add: assign_def element_names)

lemma assign_Ignore_numbers:
  "assign Ignore_numbers_element_name t x =
     x\<lparr>m_bIgnoreNumbers := (atoi t \<noteq> 0), m_bHasIgnoreNumbers := True\<rparr>"
  by (simp add: assign_def element_names)

lemma assign_Ignore_codepage_diff:
  "assign Ignore_codepage_diff_element_name t x =
     x\<lparr>m_bIgnoreCodepage := (atoi t \<noteq> 0), m_bHasIgnoreCodepage := True\<rparr>"
  by (simp add: assign_def element_names)

lemma assign_Ignore_comment_diff:
  "assign Ignore_comment_diff_element_name t x =
     x\<lparr>m_bFilterCommentsLines := (atoi t \<noteq> 0), m_bHasFilterCommentsLines := True\<rparr>"
  by (simp add: assign_def element_names)

lemma assign_Compare_method:
  "assign Compare_method_element_name t x =
     x\<lparr>m_nCompareMethod := atoi t, m_bHasCompareMethod := True\<rparr>"
  by (simp add: assign_def element_names)

lemma assign_Hidden_items:
  "assign Hidden_items_element_name t x =
     x\<lparr>m_vSavedHiddenItems := m_vSavedHiddenItems x @ [t], m_bHasHiddenItems := True\<rparr>"
  by (simp add: assign_def element_names)

lemmas assign_known =
  assign_Left assign_Middle assign_Right assign_Filter assign_Subfolders assign_Left_ro
  assign_Middle_ro assign_Right_ro assign_Unpacker assign_Prediffer assign_White_spaces
  assign_Ignore_blank_lines assign_Ignore_case assign_Ignore_cr_diff assign_Ignore_numbers
  assign_Ignore_codepage_diff assign_Ignore_comment_diff assign_Compare_method
  assign_Hidden_items

lemma parse_append:
  "parse (es1 @ es2) h = (case parse es1 h of Inl f \<Rightarrow> Inl f | Inr h' \<Rightarrow> parse es2 h')"
  by (induction es1 arbitrary: h) (simp_all split: sum.splits)

lemma parse_StartElement:
  "parse (StartElement n # es) \<lparr>m_pProject = items, m_stack = st\<rparr> =
     parse es \<lparr>m_pProject = (if n = Paths_element_name then items @ [ProjectFileItem_new] else items),
               m_stack = n # st\<rparr>"
  by (simp add: startElement_def)

lemma parse_EndElement:
  "parse (EndElement n # es) \<lparr>m_pProject = items, m_stack = m # st\<rparr> =
     parse es \<lparr>m_pProject = items, m_stack = st\<rparr>"
  by (simp add: endElement_def)

lemma parse_Characters:
  "parse (Characters t # es) \<lparr>m_pProject = items @ [cur], m_stack = n # st\<rparr> =
     parse es \<lparr>m_pProject = items @ [assign n t cur], m_stack = n # st\<rparr>"
  by (simp add: characters_def)

lemma parse_writeElement:
  "n \<noteq> Paths_element_name \<Longrightarrow>
   parse (writeElement n t @ es) \<lparr>m_pProject = items @ [cur], m_stack = st\<rparr> =
     parse es \<lparr>m_pProject = items @ [assign n t cur], m_stack = st\<rparr>"
  by (simp add: writeElement_def parse_StartElement parse_EndElement parse_Characters
      del: parse.simps)

lemma parse_opt_writeElement:
  "n \<noteq> Paths_element_name \<Longrightarrow>
   parse (opt c (writeElement n t) @ es) \<lparr>m_pProject = items @ [cur], m_stack = st\<rparr> =
     parse es \<lparr>m_pProject = items @ [cond_assign c n t cur], m_stack = st\<rparr>"
  by (simp add: opt_def cond_assign_def parse_writeElement del: parse.simps)

lemma parse_hidden_items:
  "parse (concat (map (writeElement Hidden_items_element_name) hs) @ es)
      \<lparr>m_pProject = items @ [cur], m_stack = st\<rparr> =
   parse es \<lparr>m_pProject = items @ [fold (assign Hidden_items_element_name) hs cur], m_stack = st\<rparr>"
proof (induction hs arbitrary: cur)
  case Nil
  show ?case by simp
next
  case (Cons a hs)
  have ne: "Hidden_items_element_name \<noteq> Paths_element_name" by (simp add: element_names)
  show ?case
    using parse_writeElement [OF ne, of a "concat (map (writeElement Hidden_items_element_name) hs) @ es" items cur st]
      Cons.IH [of "assign Hidden_items_element_name a cur"]
    by (simp del: parse.simps)
qed

lemma fold_assign_hidden:
  "fold (assign Hidden_items_element_name) hs cur =
     (if hs = [] then cur
      else cur\<lparr>m_vSavedHiddenItems := m_vSavedHiddenItems cur @ hs, m_bHasHiddenItems := True\<rparr>)"
  by (induction hs arbitrary: cur) (simp_all add: assign_Hidden_items)

lemma hidden_item_pieces:
  "m_vSavedHiddenItems (fold (assign Hidden_items_element_name) frags x) =
     m_vSavedHiddenItems x @ frags"
  by (simp add: fold_assign_hidden)

lemma parse_saveHiddenItems:
  "parse (opt c (saveHiddenItems hs) @ es) \<lparr>m_pProject = items @ [cur], m_stack = st\<rparr> =
   parse es \<lparr>m_pProject = items @ [cond_hidden c hs cur], m_stack = st\<rparr>"
proof (cases c)
  case False
  then show ?thesis by (simp add: opt_def cond_hidden_def)
next
  case True
  have ne: "Hidden_list_element_name \<noteq> Paths_element_name" by (simp add: element_names)
  have "parse (saveHiddenItems hs @ es) \<lparr>m_pProject = items @ [cur], m_stack = st\<rparr> =
      parse (concat (map (writeElement Hidden_items_element_name) hs)
               @ EndElement Hidden_list_element_name # es)
        \<lparr>m_pProject = items @ [cur], m_stack = Hidden_list_element_name # st\<rparr>"
    unfolding saveHiddenItems_def using ne by (simp add: parse_StartElement del: parse.simps)
  also have "\<dots> = parse es
        \<lparr>m_pProject = items @ [fold (assign Hidden_items_element_name) hs cur], m_stack = st\<rparr>"
    by (simp only: parse_hidden_items parse_EndElement)
  finally show ?thesis using True by (simp add: opt_def cond_hidden_def)
qed

lemma names_not_paths:
  "Left_element_name \<noteq> Paths_element_name" "Middle_element_name \<noteq> Paths_element_name"
  "Right_element_name \<noteq> Paths_element_name" "Filter_element_name \<noteq> Paths_element_name"
  "Subfolders_element_name \<noteq> Paths_element_name" "Left_ro_element_name \<noteq> Paths_element_name"
  "Middle_ro_element_name \<noteq> Paths_element_name" "Right_ro_element_name \<noteq> Paths_element_name"
  "Unpacker_element_name \<noteq> Paths_element_name" "Prediffer_element_name \<noteq> Paths_element_name"
  "White_spaces_element_name \<noteq> Paths_element_name"
  "Ignore_blank_lines_element_name \<noteq> Paths_element_name"
  "Ignore_case_element_name \<noteq> Paths_element_name"
  "Ignore_cr_diff_element_name \<noteq> Paths_element_name"
  "Ignore_numbers_element_name \<noteq> Paths_element_name"
  "Ignore_codepage_diff_element_name \<noteq> Paths_element_name"
  "Ignore_comment_diff_element_name \<noteq> Paths_element_name"
  "Compare_method_element_name \<noteq> Paths_element_name"
  "Hidden_items_element_name \<noteq> Paths_element_name"
  "Hidden_list_element_name \<noteq> Paths_element_name"
  "Root_element_name \<noteq> Paths_element_name"
  by (simp_all add: element_names)

lemma if_assign_Left:
  "cond_assign c Left_element_name t x =
     m_bHasLeft_update (\<lambda>h. c \<or> h)
       (m_paths_update (pc_left_update (\<lambda>v. v @ (if c then t else []))) x)"
  by (cases c) (simp_all add: cond_assign_def assign_Left SetLeft_def GetLeft_def)

lemma if_assign_Middle:
  "cond_assign c Middle_element_name t x =
     m_bHasMiddle_update (\<lambda>h. c \<or> h)
       (m_paths_update (pc_middle_update (\<lambda>v. v @ (if c then t else []))) x)"
  by (cases c) (simp_all add: cond_assign_def assign_Middle SetMiddle_def GetMiddle_def)

lemma if_assign_Right:
  "cond_assign c Right_element_name t x =
     m_bHasRight_update (\<lambda>h. c \<or> h)
       (m_paths_update (pc_right_update (\<lambda>v. v @ (if c then t else []))) x)"
  by (cases c) (simp_all add: cond_assign_def assign_Right SetRight_def GetRight_def)

lemma if_assign_Filter:
  "cond_assign c Filter_element_name t x =
     m_bHasFilter_update (\<lambda>h. c \<or> h) (m_filter_update (\<lambda>v. v @ (if c then t else [])) x)"
  by (cases c) (simp_all add: cond_assign_def assign_Filter)

lemma if_assign_Unpacker:
  "cond_assign c Unpacker_element_name t x =
     m_bHasUnpacker_update (\<lambda>h. c \<or> h) (m_unpacker_update (\<lambda>v. v @ (if c then t else [])) x)"
  by (cases c) (simp_all add: cond_assign_def assign_Unpacker)

lemma if_assign_Prediffer:
  "cond_assign c Prediffer_element_name t x =
     m_bHasPrediffer_update (\<lambda>h. c \<or> h) (m_prediffer_update (\<lambda>v. v @ (if c then t else [])) x)"
  by (cases c) (simp_all add: cond_assign_def assign_Prediffer)

lemma if_assign_Subfolders:
  "cond_assign c Subfolders_element_name t x =
     m_bHasSubfolders_update (\<lambda>h. c \<or> h) (m_subfolders_update (\<lambda>v. if c then atoi t else v) x)"
  by (cases c) (simp_all add: cond_assign_def assign_Subfolders)

lemma if_assign_White_spaces:
  "cond_assign c White_spaces_element_name t x =
     m_bHasIgnoreWhite_update (\<lambda>h. c \<or> h) (m_nIgnoreWhite_update (\<lambda>v. if c then atoi t else v) x)"
  by (cases c) (simp_all add: cond_assign_def assign_White_spaces)

lemma if_assign_Compare_method:
  "cond_assign c Compare_method_element_name t x =
     m_bHasCompareMethod_update (\<lambda>h. c \<or> h) (m_nCompareMethod_update (\<lambda>v. if c then atoi t else v) x)"
  by (cases c) (simp_all add: cond_assign_def assign_Compare_method)

lemma if_assign_Ignore_blank_lines:
  "cond_assign c Ignore_blank_lines_element_name t x =
     m_bHasIgnoreBlankLines_update (\<lambda>h. c \<or> h) (m_bIgnoreBlankLines_update (\<lambda>v. c \<and> atoi t \<noteq> 0 \<or> \<not> c \<and> v) x)"
  by (cases c) (simp_all add: cond_assign_def assign_Ignore_blank_lines)

lemma if_assign_Ignore_case:
  "cond_assign c Ignore_case_element_name t x =
     m_bHasIgnoreCase_update (\<lambda>h. c \<or> h) (m_bIgnoreCase_update (\<lambda>v. c \<and> atoi t \<noteq> 0 \<or> \<not> c \<and> v) x)"
  by (cases c) (simp_all add: cond_assign_def assign_Ignore_case)

lemma if_assign_Ignore_cr_diff:
  "cond_assign c Ignore_cr_diff_element_name t x =
     m_bHasIgnoreEol_update (\<lambda>h. c \<or> h) (m_bIgnoreEol_update (\<lambda>v. c \<and> atoi t \<noteq> 0 \<or> \<not> c \<and> v) x)"
  by (cases c) (simp_all add: cond_assign_def assign_Ignore_cr_diff)

lemma if_assign_Ignore_numbers:
  "cond_assign c Ignore_numbers_element_name t x =
     m_bHasIgnoreNumbers_update (\<lambda>h. c \<or> h) (m_bIgnoreNumbers_update (\<lambda>v. c \<and> atoi t \<noteq> 0 \<or> \<not> c \<and> v) x)"
  by (cases c) (simp_all add: cond_assign_def assign_Ignore_numbers)

lemma if_assign_Ignore_codepage_diff:
  "cond_assign c Ignore_codepage_diff_element_name t x =
     m_bHasIgnoreCodepage_update (\<lambda>h. c \<or> h) (m_bIgnoreCodepage_update (\<lambda>v. c \<and> atoi t \<noteq> 0 \<or> \<not> c \<and> v) x)"
  by (cases c) (simp_all add: cond_assign_def assign_Ignore_codepage_diff)

lemma if_assign_Ignore_comment_diff:
  "cond_assign c Ignore_comment_diff_element_name t x =
     m_bHasFilterCommentsLines_update (\<lambda>h. c \<or> h) (m_bFilterCommentsLines_update (\<lambda>v. c \<and> atoi t \<noteq> 0 \<or> \<not> c \<and> v) x)"
  by (cases c) (simp_all add: cond_assign_def assign_Ignore_comment_diff)

lemma if_assign_Middle_ro:
  "cond_assign c Middle_ro_element_name t x =
     m_bMiddleReadOnly_update (\<lambda>v. c \<and> atoi t \<noteq> 0 \<or> \<not> c \<and> v) x"
  by (cases c) (simp_all add: cond_assign_def assign_Middle_ro)

lemma if_fold_assign_hidden:
  "cond_hidden (c \<and> hs \<noteq> []) hs x =
     m_bHasHiddenItems_update (\<lambda>h. c \<and> hs \<noteq> [] \<or> h)
       (m_vSavedHiddenItems_update (\<lambda>v. v @ (if c then hs else [])) x)"
  by (cases c; cases "hs = []") (simp_all add: cond_hidden_def fold_assign_hidden)

lemmas if_assign =
  if_assign_Left if_assign_Middle if_assign_Right if_assign_Filter if_assign_Subfolders
  if_assign_Middle_ro if_assign_Unpacker if_assign_Prediffer if_assign_White_spaces
  if_assign_Ignore_blank_lines if_assign_Ignore_case if_assign_Ignore_cr_diff
  if_assign_Ignore_numbers if_assign_Ignore_codepage_diff if_assign_Ignore_comment_diff
  if_assign_Compare_method if_fold_assign_hidden

lemma atoi_to_string_clamp: "atoi (to_string n) = clamp_int n"
proof (cases "n < 0")
  case False
  then show ?thesis by (simp add: to_string_def atoi_dec_digits)
next
  case True
  have "\<not> isspace_c CHR ''-''" by (simp add: isspace_c_def)
  then have "atoi (CHR ''-'' # dec_digits (- n)) = clamp_int (- digits_val (dec_digits (- n)))"
    by (simp add: atoi_def)
  then show ?thesis using True by (simp add: to_string_def digits_val_dec_digits)
qed

lemma if_nonempty: "(if s \<noteq> [] then s else []) = s"
  by simp

lemma if_one_zero: "((if b then 1 else 0) \<noteq> (0::int)) = b"
  by simp

lemma if_and_nonempty: "(if c \<and> s \<noteq> [] then s else []) = (if c then s else [])"
  by simp

lemma parse_save_item:
  "parse (save_item item @ es) \<lparr>m_pProject = items, m_stack = st\<rparr> =
     parse es \<lparr>m_pProject = items @ [reread item], m_stack = st\<rparr>"
  unfolding save_item_def
  apply (simp only: append_Cons append_assoc append_Nil parse_StartElement parse_EndElement
      parse_opt_writeElement parse_writeElement parse_saveHiddenItems names_not_paths
      if_True refl simp_thms)
  apply (simp add: if_assign assign_Left_ro assign_Right_ro ProjectFileItem_new_def
      PathContext_empty_def reread_def atoi_bool_text atoi_bool_text_val atoi_to_string_clamp
      GetLeft_def GetMiddle_def GetRight_def if_nonempty if_and_nonempty if_one_zero
      del: parse.simps split del: if_split cong: if_cong)
  done

lemma parse_saved_items:
  "parse (concat (map save_item D) @ es) \<lparr>m_pProject = items, m_stack = st\<rparr> =
     parse es \<lparr>m_pProject = items @ map reread D, m_stack = st\<rparr>"
proof (induction D arbitrary: items)
  case Nil
  show ?case by simp
next
  case (Cons a D)
  have "parse (concat (map save_item (a # D)) @ es) \<lparr>m_pProject = items, m_stack = st\<rparr> =
      parse (save_item a @ (concat (map save_item D) @ es)) \<lparr>m_pProject = items, m_stack = st\<rparr>"
    by simp
  also have "\<dots> = parse (concat (map save_item D) @ es)
      \<lparr>m_pProject = items @ [reread a], m_stack = st\<rparr>"
    by (rule parse_save_item)
  also have "\<dots> = parse es \<lparr>m_pProject = (items @ [reread a]) @ map reread D, m_stack = st\<rparr>"
    by (rule Cons.IH)
  finally show ?case by simp
qed

lemma parse_Save:
  "parse (Save D) \<lparr>m_pProject = items, m_stack = []\<rparr> =
     Inr \<lparr>m_pProject = items @ map reread D, m_stack = []\<rparr>"
proof -
  have ne: "Root_element_name \<noteq> Paths_element_name" by (simp add: element_names)
  have "parse (Save D) \<lparr>m_pProject = items, m_stack = []\<rparr> =
      parse (concat (map save_item D) @ [EndElement Root_element_name])
        \<lparr>m_pProject = items, m_stack = [Root_element_name]\<rparr>"
    unfolding Save_def using ne by (simp add: parse_StartElement del: parse.simps)
  also have "\<dots> = parse [EndElement Root_element_name]
        \<lparr>m_pProject = items @ map reread D, m_stack = [Root_element_name]\<rparr>"
    by (rule parse_saved_items)
  also have "\<dots> = Inr \<lparr>m_pProject = items @ map reread D, m_stack = []\<rparr>"
    by (simp add: endElement_def)
  finally show ?thesis .
qed

lemma Read_Save: "Read (Save D) items = Inr (items @ map reread D)"
  by (simp add: Read_def parse_Save)

lemma characters_cases:
  assumes "characters t h = Inr h'"
  shows "h' = h \<or> (m_pProject h \<noteq> [] \<and> m_stack h \<noteq> [] \<and>
           h' = h\<lparr>m_pProject := butlast (m_pProject h)
                     @ [assign (hd (m_stack h)) t (last (m_pProject h))]\<rparr>)"
  using assms by (auto simp: characters_def split: if_splits list.splits)

lemma deliver_length:
  assumes "deliver e h = Inr h'"
  shows "length (m_pProject h') =
           length (m_pProject h) + (if e = StartElement Paths_element_name then 1 else 0)"
proof (cases e)
  case (StartElement n)
  then show ?thesis using assms by (auto simp: startElement_def Let_def)
next
  case (EndElement n)
  then show ?thesis using assms by (auto simp: endElement_def split: list.splits)
next
  case (Characters t)
  then show ?thesis using assms characters_cases [of t h h'] by auto
qed

lemma deliver_butlast:
  assumes "deliver e h = Inr h'"
  shows "take (length (m_pProject h) - 1) (m_pProject h') = butlast (m_pProject h)"
proof (cases e)
  case (StartElement n)
  then show ?thesis using assms by (auto simp: startElement_def Let_def butlast_conv_take)
next
  case (EndElement n)
  then show ?thesis using assms by (auto simp: endElement_def butlast_conv_take split: list.splits)
next
  case (Characters t)
  then show ?thesis using assms characters_cases [of t h h'] by (auto simp: butlast_conv_take)
qed

lemma parse_length:
  "parse es h = Inr h' \<Longrightarrow>
   length (m_pProject h') = length (m_pProject h) + count_list es (StartElement Paths_element_name)"
proof (induction es arbitrary: h)
  case Nil
  then show ?case by simp
next
  case (Cons e es)
  then obtain h1 where h1: "deliver e h = Inr h1" and r: "parse es h1 = Inr h'"
    by (auto split: sum.splits)
  show ?case using Cons.IH [OF r] deliver_length [OF h1] by simp
qed

lemma parse_butlast:
  "parse es h = Inr h' \<Longrightarrow>
   take (length (m_pProject h) - 1) (m_pProject h') = butlast (m_pProject h)"
proof (induction es arbitrary: h)
  case Nil
  then show ?case by (simp add: butlast_conv_take)
next
  case (Cons e es)
  then obtain h1 where h1: "deliver e h = Inr h1" and r: "parse es h1 = Inr h'"
    by (auto split: sum.splits)
  have le: "length (m_pProject h) \<le> length (m_pProject h1)"
    using deliver_length [OF h1] by simp
  have "take (length (m_pProject h) - 1) (m_pProject h') =
      take (length (m_pProject h) - 1) (take (length (m_pProject h1) - 1) (m_pProject h'))"
    using le by (simp add: min_def)
  also have "\<dots> = take (length (m_pProject h) - 1) (butlast (m_pProject h1))"
    using Cons.IH [OF r] by simp
  also have "\<dots> = take (length (m_pProject h) - 1) (m_pProject h1)"
    using le by (simp add: butlast_conv_take min_def)
  also have "\<dots> = butlast (m_pProject h)"
    by (rule deliver_butlast [OF h1])
  finally show ?case .
qed

subsection \<open>The round trip\<close>




subsection \<open>Read on a list that is not empty\<close>

lemma parse_length_le:
  "parse es h = Inr h' \<Longrightarrow> length (m_pProject h) \<le> length (m_pProject h')"
  using parse_length [of es h h'] by simp

lemma parse_untouched:
  "parse es h = Inr h' \<Longrightarrow> untouched (m_stack h) es \<Longrightarrow>
   take (length (m_pProject h)) (m_pProject h') = m_pProject h"
proof (induction es arbitrary: h)
  case Nil
  then show ?case by simp
next
  case (Cons e es)
  then obtain h1 where h1: "deliver e h = Inr h1" and r: "parse es h1 = Inr h'"
    by (auto split: sum.splits)
  show ?case
  proof (cases e)
    case (StartElement n)
    show ?thesis
    proof (cases "n = Paths_element_name")
      case True
      then have p1: "m_pProject h1 = m_pProject h @ [ProjectFileItem_new]"
        using h1 StartElement by (auto simp: startElement_def)
      have "take (length (m_pProject h1) - 1) (m_pProject h') = butlast (m_pProject h1)"
        by (rule parse_butlast [OF r])
      then show ?thesis using p1 by simp
    next
      case False
      then have "m_pProject h1 = m_pProject h" "m_stack h1 = n # m_stack h"
        using h1 StartElement by (auto simp: startElement_def)
      moreover have "untouched (n # m_stack h) es"
        using Cons.prems(2) StartElement False by simp
      ultimately show ?thesis using Cons.IH [OF r] by simp
    qed
  next
    case (EndElement n)
    then have "m_pProject h1 = m_pProject h" "m_stack h1 = tl (m_stack h)"
      using h1 by (auto simp: endElement_def split: list.splits)
    moreover have "untouched (tl (m_stack h)) es"
      using Cons.prems(2) EndElement by simp
    ultimately show ?thesis using Cons.IH [OF r] by simp
  next
    case (Characters t)
    then have u: "m_stack h \<noteq> []" "hd (m_stack h) \<notin> set leaf_names" "untouched (m_stack h) es"
      using Cons.prems(2) by simp_all
    have c: "characters t h = Inr h1" using h1 Characters by simp
    have "h1 = h"
      using characters_cases [OF c] u(2)
      by (auto simp: assign_unknown)
    then show ?thesis using Cons.IH [OF r] u(3) by simp
  qed
qed

lemma untouched_saved_items: "untouched st (concat (map save_item D) @ es) = (D \<noteq> [] \<or> untouched st es)"
  by (cases D) (simp_all add: save_item_def)

lemma untouched_Save: "untouched [] (Save D)"
  by (simp add: Save_def untouched_saved_items element_names)

text \<open>
  Claim C10, as the code has it. Read never resets the list before parsing. When it
  returns, the list has grown by one item per \<^verbatim>\<open>paths\<close> element opened, the new items
  stand after the existing ones, and every existing item but the last is unchanged. The
  last existing item is the handler's current item until the first \<^verbatim>\<open>paths\<close> element
  opens: it is unchanged as well when no text reaches an element that \<open>assign\<close> knows
  before that. A document written by Save is such a document: reading it appends its
  items after the existing ones and changes none of them, so two Reads of written
  documents, one after the other, accumulate the items of both.
\<close>

theorem Read_appends:
  "(Read es items = Inr items' \<longrightarrow>
      length items' = length items + count_list es (StartElement Paths_element_name)
      \<and> take (length items - 1) items' = butlast items
      \<and> (untouched [] es \<longrightarrow> take (length items) items' = items))
   \<and> Read (Save D) items = Inr (items @ map reread D)
   \<and> (case Read (Save A) items of Inl f \<Rightarrow> Inl f | Inr items1 \<Rightarrow> Read (Save B) items1)
        = Inr (items @ map reread A @ map reread B)"
proof (intro conjI impI)
  assume a: "Read es items = Inr items'"
  then obtain h' where p: "parse es \<lparr>m_pProject = items, m_stack = []\<rparr> = Inr h'"
    and i: "items' = m_pProject h'"
    by (auto simp: Read_def split: sum.splits)
  show "length items' = length items + count_list es (StartElement Paths_element_name)"
    using parse_length [OF p] i by simp
  show "take (length items - 1) items' = butlast items"
    using parse_butlast [OF p] i by simp
  show "take (length items) items' = items" if "untouched [] es"
    using parse_untouched [OF p] i that by simp
next
  show "Read (Save D) items = Inr (items @ map reread D)"
    by (rule Read_Save)
  show "(case Read (Save A) items of Inl f \<Rightarrow> Inl f | Inr items1 \<Rightarrow> Read (Save B) items1)
        = Inr (items @ map reread A @ map reread B)"
    by (simp add: Read_Save)
qed

text \<open>The claim says every pre-existing item is left unchanged. Read of a document with
  a \<^verbatim>\<open>left\<close> text at depth three and no \<^verbatim>\<open>paths\<close> element, on a list of one item, changes
  that item.\<close>

theorem Read_changes_last_counterexample:
  "Read left_only [ProjectFileItem_new] =
     Inr [ProjectFileItem_new\<lparr>m_paths := \<lparr>pc_left = ''x'', pc_middle = [], pc_right = []\<rparr>,
            m_bHasLeft := True\<rparr>]"
  by (simp add: Read_def left_only_def startElement_def endElement_def characters_def
      assign_Left [unfolded Left_element_name_def] Paths_element_name_def
      SetLeft_def GetLeft_def ProjectFileItem_new_def PathContext_empty_def)

text \<open>Reading a written document of one item into a list of one item.\<close>

theorem Read_appends_witness:
  "Read (Save [three_way_item]) [two_way_item] = Inr [two_way_item, reread three_way_item]
   \<and> untouched [] (Save [three_way_item])
   \<and> length [two_way_item, reread three_way_item] =
       length [two_way_item] + count_list (Save [three_way_item]) (StartElement Paths_element_name)
   \<and> take (length [two_way_item]) [two_way_item, reread three_way_item] = [two_way_item]"
proof -
  note T = Read_appends [of "Save [three_way_item]" "[two_way_item]"
      "[two_way_item, reread three_way_item]" "[three_way_item]" "[]" "[]"]
  have s: "Read (Save [three_way_item]) [two_way_item] = Inr [two_way_item, reread three_way_item]"
    using T by simp
  have u: "untouched [] (Save [three_way_item])"
    by (rule untouched_Save)
  from T s u show ?thesis by blast
qed

subsection \<open>Well-formed documents and the empty list\<close>

lemma parse_well_formed:
  "wf_from (m_stack h) c es \<Longrightarrow> m_pProject h \<noteq> [] \<Longrightarrow> \<exists>h'. parse es h = Inr h'"
proof (induction es arbitrary: h c)
  case Nil
  show ?case by simp
next
  case (Cons e es)
  show ?case
  proof (cases e)
    case (StartElement n)
    have "wf_from (m_stack (startElement n h)) False es" "m_pProject (startElement n h) \<noteq> []"
      using Cons.prems StartElement by (auto simp: startElement_def)
    then show ?thesis using Cons.IH StartElement by simp
  next
    case (EndElement n)
    obtain m st' where st: "m_stack h = m # st'" and w: "wf_from st' (st' = []) es"
      using Cons.prems(1) EndElement by (auto split: list.splits)
    have "endElement h = Inr (h\<lparr>m_stack := st'\<rparr>)" using st by (simp add: endElement_def)
    moreover have "\<exists>h'. parse es (h\<lparr>m_stack := st'\<rparr>) = Inr h'"
      using Cons.IH [of "h\<lparr>m_stack := st'\<rparr>" "st' = []"] w Cons.prems(2) by simp
    ultimately show ?thesis using EndElement by simp
  next
    case (Characters t)
    obtain n st' where st: "m_stack h = n # st'"
      using Cons.prems(1) Characters by (cases "m_stack h") auto
    let ?h1 = "h\<lparr>m_pProject := butlast (m_pProject h) @ [assign n t (last (m_pProject h))]\<rparr>"
    have c: "characters t h = Inr ?h1"
      using st Cons.prems(2) by (simp add: characters_def)
    have "wf_from (m_stack ?h1) c es" "m_pProject ?h1 \<noteq> []"
      using Cons.prems(1) Characters by simp_all
    then have "\<exists>h'. parse es ?h1 = Inr h'" by (rule Cons.IH)
    then show ?thesis using c Characters by simp
  qed
qed

lemma Read_well_formed_nonempty:
  "well_formed es \<Longrightarrow> items \<noteq> [] \<Longrightarrow> \<exists>items'. Read es items = Inr items'"
  using parse_well_formed [of "\<lparr>m_pProject = items, m_stack = []\<rparr>" False es]
  by (auto simp: well_formed_def Read_def)

text \<open>
  Claim C3 fails on the code. The document
  \<^verbatim>\<open><project><settings><name>x</name></settings></project>\<close> is well formed and has no
  \<^verbatim>\<open>paths\<close> element. Its text arrives with three elements open and an empty list; the
  guard of line 103 lets it pass, and line 106 takes \<^verbatim>\<open>back()\<close> of the empty list.
\<close>

theorem Read_back_of_empty_list:
  "well_formed no_paths_document \<and> Read no_paths_document [] = Inl BackOfEmptyList"
  by (simp add: well_formed_def no_paths_document_def Read_def startElement_def
      characters_def Paths_element_name_def)

subsection \<open>Has flags follow text events\<close>

lemma has_flag_assign_Left:
  "has_flag Left_element_name (assign m t x) = (m = Left_element_name \<or> has_flag Left_element_name x)"
  by (simp add: has_flag_def assign_def element_names)

lemma has_flag_assign_Middle:
  "has_flag Middle_element_name (assign m t x) = (m = Middle_element_name \<or> has_flag Middle_element_name x)"
  by (simp add: has_flag_def assign_def element_names)

lemma has_flag_assign_Right:
  "has_flag Right_element_name (assign m t x) = (m = Right_element_name \<or> has_flag Right_element_name x)"
  by (simp add: has_flag_def assign_def element_names)

lemma has_flag_assign_Filter:
  "has_flag Filter_element_name (assign m t x) = (m = Filter_element_name \<or> has_flag Filter_element_name x)"
  by (simp add: has_flag_def assign_def element_names)

lemma has_flag_assign_Subfolders:
  "has_flag Subfolders_element_name (assign m t x) = (m = Subfolders_element_name \<or> has_flag Subfolders_element_name x)"
  by (simp add: has_flag_def assign_def element_names)

lemma has_flag_assign_Unpacker:
  "has_flag Unpacker_element_name (assign m t x) = (m = Unpacker_element_name \<or> has_flag Unpacker_element_name x)"
  by (simp add: has_flag_def assign_def element_names)

lemma has_flag_assign_Prediffer:
  "has_flag Prediffer_element_name (assign m t x) = (m = Prediffer_element_name \<or> has_flag Prediffer_element_name x)"
  by (simp add: has_flag_def assign_def element_names)

lemma has_flag_assign_White_spaces:
  "has_flag White_spaces_element_name (assign m t x) = (m = White_spaces_element_name \<or> has_flag White_spaces_element_name x)"
  by (simp add: has_flag_def assign_def element_names)

lemma has_flag_assign_Ignore_blank_lines:
  "has_flag Ignore_blank_lines_element_name (assign m t x) = (m = Ignore_blank_lines_element_name \<or> has_flag Ignore_blank_lines_element_name x)"
  by (simp add: has_flag_def assign_def element_names)

lemma has_flag_assign_Ignore_case:
  "has_flag Ignore_case_element_name (assign m t x) = (m = Ignore_case_element_name \<or> has_flag Ignore_case_element_name x)"
  by (simp add: has_flag_def assign_def element_names)

lemma has_flag_assign_Ignore_cr_diff:
  "has_flag Ignore_cr_diff_element_name (assign m t x) = (m = Ignore_cr_diff_element_name \<or> has_flag Ignore_cr_diff_element_name x)"
  by (simp add: has_flag_def assign_def element_names)

lemma has_flag_assign_Ignore_numbers:
  "has_flag Ignore_numbers_element_name (assign m t x) = (m = Ignore_numbers_element_name \<or> has_flag Ignore_numbers_element_name x)"
  by (simp add: has_flag_def assign_def element_names)

lemma has_flag_assign_Ignore_codepage_diff:
  "has_flag Ignore_codepage_diff_element_name (assign m t x) = (m = Ignore_codepage_diff_element_name \<or> has_flag Ignore_codepage_diff_element_name x)"
  by (simp add: has_flag_def assign_def element_names)

lemma has_flag_assign_Ignore_comment_diff:
  "has_flag Ignore_comment_diff_element_name (assign m t x) = (m = Ignore_comment_diff_element_name \<or> has_flag Ignore_comment_diff_element_name x)"
  by (simp add: has_flag_def assign_def element_names)

lemma has_flag_assign_Compare_method:
  "has_flag Compare_method_element_name (assign m t x) = (m = Compare_method_element_name \<or> has_flag Compare_method_element_name x)"
  by (simp add: has_flag_def assign_def element_names)

lemma has_flag_assign_Hidden_items:
  "has_flag Hidden_items_element_name (assign m t x) = (m = Hidden_items_element_name \<or> has_flag Hidden_items_element_name x)"
  by (simp add: has_flag_def assign_def element_names)

lemmas has_flag_assign_each =
  has_flag_assign_Left
  has_flag_assign_Middle
  has_flag_assign_Right
  has_flag_assign_Filter
  has_flag_assign_Subfolders
  has_flag_assign_Unpacker
  has_flag_assign_Prediffer
  has_flag_assign_White_spaces
  has_flag_assign_Ignore_blank_lines
  has_flag_assign_Ignore_case
  has_flag_assign_Ignore_cr_diff
  has_flag_assign_Ignore_numbers
  has_flag_assign_Ignore_codepage_diff
  has_flag_assign_Ignore_comment_diff
  has_flag_assign_Compare_method
  has_flag_assign_Hidden_items

lemma has_flag_assign:
  "n \<in> set has_names \<Longrightarrow> has_flag n (assign m t x) = (m = n \<or> has_flag n x)"
  unfolding has_names_def using has_flag_assign_each by auto

lemma has_flag_new: "has_flag n ProjectFileItem_new = False"
  by (simp add: has_flag_def ProjectFileItem_new_def)

lemma deliver_text_seen:
  assumes n: "n \<in> set has_names" and d: "deliver e h = Inr h'"
  shows "text_seen n (m_stack h) (map (has_flag n) (m_pProject h)) (e # es) =
         text_seen n (m_stack h') (map (has_flag n) (m_pProject h')) es"
proof (cases e)
  case (StartElement m)
  then show ?thesis using d by (auto simp: startElement_def has_flag_new)
next
  case (EndElement m)
  then show ?thesis using d by (auto simp: endElement_def split: list.splits)
next
  case (Characters t)
  then have c: "characters t h = Inr h'" using d by simp
  show ?thesis
  proof (cases "m_pProject h = []")
    case True
    then have "h' = h" using characters_cases [OF c] by auto
    then show ?thesis using True Characters by simp
  next
    case False
    then obtain top st where st: "m_stack h = top # st"
      using c by (cases "m_stack h") (auto simp: characters_def)
    have h': "h' = h\<lparr>m_pProject := butlast (m_pProject h) @ [assign top t (last (m_pProject h))]\<rparr>"
      using c False st by (simp add: characters_def)
    have "map (has_flag n) (butlast (m_pProject h) @ [last (m_pProject h)]) =
        map (has_flag n) (butlast (m_pProject h)) @ [has_flag n (last (m_pProject h))]"
      by simp
    then have l: "map (has_flag n) (m_pProject h) =
        map (has_flag n) (butlast (m_pProject h)) @ [has_flag n (last (m_pProject h))]"
      using False by simp
    have m: "map (has_flag n) (m_pProject h') =
        map (has_flag n) (butlast (m_pProject h)) @ [top = n \<or> has_flag n (last (m_pProject h))]"
      using h' n by (simp add: has_flag_assign)
    have b: "butlast (map (has_flag n) (m_pProject h)) = map (has_flag n) (butlast (m_pProject h))"
      by (simp add: map_butlast)
    show ?thesis
    proof (cases "top = n")
      case True
      then show ?thesis using Characters st h' False m b by simp
    next
      case ne: False
      then have "map (has_flag n) (m_pProject h') = map (has_flag n) (m_pProject h)"
        using m l by simp
      then show ?thesis using Characters st h' ne by simp
    qed
  qed
qed

lemma parse_text_seen:
  "n \<in> set has_names \<Longrightarrow> parse es h = Inr h' \<Longrightarrow>
   map (has_flag n) (m_pProject h') = text_seen n (m_stack h) (map (has_flag n) (m_pProject h)) es"
proof (induction es arbitrary: h)
  case Nil
  then show ?case by simp
next
  case (Cons e es)
  then obtain h1 where h1: "deliver e h = Inr h1" and r: "parse es h1 = Inr h'"
    by (auto split: sum.splits)
  show ?case
    using Cons.IH [OF Cons.prems(1) r] deliver_text_seen [OF Cons.prems(1) h1, of es] by simp
qed

text \<open>
  Claim C6, as the code has it. The handler sets a has flag in \<^verbatim>\<open>characters\<close> only. For
  every field with a has flag and every run of Read that returns, the flag of an item is
  set after the run if and only if it was set before or a text event arrived in the
  field's element while the item was the last of the list; the payload may be empty. An
  element that opens and closes with no text event in between leaves the flag as it was.
\<close>

theorem has_flag_iff_text_seen:
  assumes "n \<in> set has_names" and "Read es items0 = Inr items"
  shows "map (has_flag n) items = text_seen n [] (map (has_flag n) items0) es"
proof -
  obtain h' where p: "parse es \<lparr>m_pProject = items0, m_stack = []\<rparr> = Inr h'"
    and i: "items = m_pProject h'"
    using assms(2) by (auto simp: Read_def split: sum.splits)
  show ?thesis using parse_text_seen [OF assms(1) p] i by simp
qed

text \<open>With one call for the empty text the flag is set and the value is 0; with no
  \<^verbatim>\<open>white-spaces\<close> element the flag is clear and the value is 0.\<close>

theorem has_flag_iff_text_seen_witness:
  "White_spaces_element_name \<in> set has_names
   \<and> Read empty_text_white_spaces [] =
       Inr [ProjectFileItem_new\<lparr>m_nIgnoreWhite := 0, m_bHasIgnoreWhite := True\<rparr>]
   \<and> text_seen White_spaces_element_name [] [] empty_text_white_spaces = [True]
   \<and> Read no_white_spaces [] = Inr [ProjectFileItem_new]
   \<and> text_seen White_spaces_element_name [] [] no_white_spaces = [False]
   \<and> m_nIgnoreWhite ProjectFileItem_new = 0"
proof -
  have n: "White_spaces_element_name \<in> set has_names"
    by (simp add: has_names_def)
  have a: "Read empty_text_white_spaces [] =
       Inr [ProjectFileItem_new\<lparr>m_nIgnoreWhite := 0, m_bHasIgnoreWhite := True\<rparr>]"
    by (simp add: Read_def empty_text_white_spaces_def startElement_def endElement_def
        characters_def Paths_element_name_def atoi_empty
        assign_White_spaces [unfolded White_spaces_element_name_def])
  have b: "Read no_white_spaces [] = Inr [ProjectFileItem_new]"
    by (simp add: Read_def no_white_spaces_def startElement_def endElement_def
        Paths_element_name_def)
  have f: "has_flag White_spaces_element_name x = m_bHasIgnoreWhite x" for x
    by (simp add: has_flag_def element_names)
  show ?thesis
    using n a b has_flag_iff_text_seen [OF n a] has_flag_iff_text_seen [OF n b]
    by (simp add: f ProjectFileItem_new_def)
qed

text \<open>The claim sets the flag for every element met. Here the \<^verbatim>\<open>white-spaces\<close> element
  opens and closes with no text event, and the item read is the constructor's, its flag
  clear.\<close>

theorem empty_element_counterexample:
  "White_spaces_element_name \<in> set (started empty_white_spaces)
   \<and> Read empty_white_spaces [] = Inr [ProjectFileItem_new]
   \<and> \<not> m_bHasIgnoreWhite ProjectFileItem_new"
  by (simp add: Read_def empty_white_spaces_def startElement_def endElement_def
      element_names ProjectFileItem_new_def)

subsection \<open>Text in pieces, and the item a paths element appends\<close>

lemma string_field_assign_Left:
  "string_field Left_element_name (assign Left_element_name t x) =
     string_field Left_element_name x @ t"
  by (simp only: assign_Left)
    (simp add: string_field_def element_names GetLeft_def GetMiddle_def GetRight_def
      SetLeft_def SetMiddle_def SetRight_def)

lemma string_field_assign_Middle:
  "string_field Middle_element_name (assign Middle_element_name t x) =
     string_field Middle_element_name x @ t"
  by (simp only: assign_Middle)
    (simp add: string_field_def element_names GetLeft_def GetMiddle_def GetRight_def
      SetLeft_def SetMiddle_def SetRight_def)

lemma string_field_assign_Right:
  "string_field Right_element_name (assign Right_element_name t x) =
     string_field Right_element_name x @ t"
  by (simp only: assign_Right)
    (simp add: string_field_def element_names GetLeft_def GetMiddle_def GetRight_def
      SetLeft_def SetMiddle_def SetRight_def)

lemma string_field_assign_Filter:
  "string_field Filter_element_name (assign Filter_element_name t x) =
     string_field Filter_element_name x @ t"
  by (simp only: assign_Filter)
    (simp add: string_field_def element_names GetLeft_def GetMiddle_def GetRight_def
      SetLeft_def SetMiddle_def SetRight_def)

lemma string_field_assign_Unpacker:
  "string_field Unpacker_element_name (assign Unpacker_element_name t x) =
     string_field Unpacker_element_name x @ t"
  by (simp only: assign_Unpacker)
    (simp add: string_field_def element_names GetLeft_def GetMiddle_def GetRight_def
      SetLeft_def SetMiddle_def SetRight_def)

lemma string_field_assign_Prediffer:
  "string_field Prediffer_element_name (assign Prediffer_element_name t x) =
     string_field Prediffer_element_name x @ t"
  by (simp only: assign_Prediffer)
    (simp add: string_field_def element_names GetLeft_def GetMiddle_def GetRight_def
      SetLeft_def SetMiddle_def SetRight_def)

lemma string_field_assign:
  "n \<in> set string_names \<Longrightarrow> string_field n (assign n t x) = string_field n x @ t"
  unfolding string_names_def
  using string_field_assign_Left string_field_assign_Middle string_field_assign_Right
    string_field_assign_Filter string_field_assign_Unpacker string_field_assign_Prediffer
  by auto

lemma string_field_fold_assign:
  "n \<in> set string_names \<Longrightarrow>
   string_field n (fold (assign n) frags x) = string_field n x @ concat frags"
  by (induction frags arbitrary: x) (simp_all add: string_field_assign)

lemma string_field_new: "string_field n ProjectFileItem_new = []"
  by (simp add: string_field_def ProjectFileItem_new_def PathContext_empty_def
      GetLeft_def GetMiddle_def GetRight_def)

lemma string_names_not_paths: "n \<in> set string_names \<Longrightarrow> n \<noteq> Paths_element_name"
  by (auto simp: string_names_def element_names)

lemma parse_fragments:
  "parse (map Characters frags @ es) \<lparr>m_pProject = items @ [cur], m_stack = n # st\<rparr> =
     parse es \<lparr>m_pProject = items @ [fold (assign n) frags cur], m_stack = n # st\<rparr>"
proof (induction frags arbitrary: cur)
  case Nil
  show ?case by simp
next
  case (Cons t frags)
  show ?case
    using parse_Characters [of t "map Characters frags @ es" items cur n st]
      Cons.IH [of "assign n t cur"]
    by (simp del: parse.simps)
qed

text \<open>
  Claim C7. For the element of a string-valued field, opened while the list has a last
  item, with its text delivered as the text events \<open>frags\<close>: the handler assigns every
  piece to the last item, in order, and after the element the field holds what it held
  before, followed by all the pieces in the order of delivery. In a new item the field
  held nothing, and holds the concatenation of the pieces.
\<close>

theorem text_pieces_concatenate:
  assumes "n \<in> set string_names"
  shows "parse (StartElement n # map Characters frags @ EndElement n # es)
           \<lparr>m_pProject = items @ [cur], m_stack = st\<rparr> =
         parse es \<lparr>m_pProject = items @ [fold (assign n) frags cur], m_stack = st\<rparr>
         \<and> string_field n (fold (assign n) frags cur) = string_field n cur @ concat frags
         \<and> string_field n (fold (assign n) frags ProjectFileItem_new) = concat frags"
proof (intro conjI)
  have "parse (StartElement n # map Characters frags @ EndElement n # es)
           \<lparr>m_pProject = items @ [cur], m_stack = st\<rparr> =
        parse (map Characters frags @ EndElement n # es)
           \<lparr>m_pProject = items @ [cur], m_stack = n # st\<rparr>"
    using string_names_not_paths [OF assms] by (simp add: parse_StartElement del: parse.simps)
  also have "\<dots> = parse (EndElement n # es)
           \<lparr>m_pProject = items @ [fold (assign n) frags cur], m_stack = n # st\<rparr>"
    by (rule parse_fragments)
  also have "\<dots> = parse es \<lparr>m_pProject = items @ [fold (assign n) frags cur], m_stack = st\<rparr>"
    by (rule parse_EndElement)
  finally show "parse (StartElement n # map Characters frags @ EndElement n # es)
           \<lparr>m_pProject = items @ [cur], m_stack = st\<rparr> =
         parse es \<lparr>m_pProject = items @ [fold (assign n) frags cur], m_stack = st\<rparr>" .
  show "string_field n (fold (assign n) frags cur) = string_field n cur @ concat frags"
    by (rule string_field_fold_assign [OF assms])
  show "string_field n (fold (assign n) frags ProjectFileItem_new) = concat frags"
    by (simp add: string_field_fold_assign [OF assms] string_field_new)
qed

text \<open>The left path delivered as \<^verbatim>\<open>C:/\<close>, \<^verbatim>\<open>dir\<close>, \<^verbatim>\<open>/a\<close>.\<close>

theorem text_pieces_concatenate_witness:
  "Left_element_name \<in> set string_names
   \<and> string_field Left_element_name
        (fold (assign Left_element_name) [''C:/'', ''dir'', ''/a''] ProjectFileItem_new) = ''C:/dir/a''
   \<and> Read left_in_pieces [] =
       Inr [ProjectFileItem_new\<lparr>m_paths := \<lparr>pc_left = ''C:/dir/a'', pc_middle = [], pc_right = []\<rparr>,
              m_bHasLeft := True\<rparr>]"
proof -
  have n: "Left_element_name \<in> set string_names"
    by (simp add: string_names_def)
  have r: "Read left_in_pieces [] =
       Inr [ProjectFileItem_new\<lparr>m_paths := \<lparr>pc_left = ''C:/dir/a'', pc_middle = [], pc_right = []\<rparr>,
              m_bHasLeft := True\<rparr>]"
    by (simp add: Read_def left_in_pieces_def startElement_def endElement_def characters_def
      assign_Left [unfolded Left_element_name_def] Paths_element_name_def
      SetLeft_def GetLeft_def ProjectFileItem_new_def PathContext_empty_def)
  have f: "string_field Left_element_name
        (fold (assign Left_element_name) [''C:/'', ''dir'', ''/a''] ProjectFileItem_new) =
      concat [''C:/'', ''dir'', ''/a'']"
    by (rule text_pieces_concatenate [OF n, THEN conjunct2, THEN conjunct2])
  have c: "concat [''C:/'', ''dir'', ''/a''] = ''C:/dir/a''"
    by simp
  from n r f [unfolded c] show ?thesis by (intro conjI)
qed

text \<open>
  Claim C8. When a \<^verbatim>\<open>paths\<close> element opens, the handler appends one item, the one the
  constructor builds, and then pushes the name; it does so at the open event, ahead of
  every later event, and whatever elements are open. No other event changes the length of
  the list: another element's open event and a close event leave the list as it is, and a
  text event assigns to the last item or changes nothing. So a run that returns has
  appended one item per \<^verbatim>\<open>paths\<close> element opened, and every assignment after an open
  event goes to the item appended last.
\<close>

theorem startElement_paths_appends:
  "deliver (StartElement Paths_element_name) h =
     Inr \<lparr>m_pProject = m_pProject h @ [ProjectFileItem_new],
          m_stack = Paths_element_name # m_stack h\<rparr>
   \<and> (n \<noteq> Paths_element_name \<longrightarrow>
        deliver (StartElement n) h = Inr \<lparr>m_pProject = m_pProject h, m_stack = n # m_stack h\<rparr>)
   \<and> (deliver (EndElement n) h = Inr h' \<longrightarrow> m_pProject h' = m_pProject h)
   \<and> (deliver (Characters t) h = Inr h' \<longrightarrow>
        h' = h \<or> (m_pProject h \<noteq> [] \<and> m_stack h \<noteq> [] \<and>
          h' = h\<lparr>m_pProject := butlast (m_pProject h)
                    @ [assign (hd (m_stack h)) t (last (m_pProject h))]\<rparr>))
   \<and> parse (es1 @ StartElement Paths_element_name # es2) h =
       (case parse es1 h of
          Inl f \<Rightarrow> Inl f
        | Inr h1 \<Rightarrow> parse es2 \<lparr>m_pProject = m_pProject h1 @ [ProjectFileItem_new],
                                m_stack = Paths_element_name # m_stack h1\<rparr>)
   \<and> (parse es h = Inr h' \<longrightarrow>
        length (m_pProject h') =
          length (m_pProject h) + count_list es (StartElement Paths_element_name))"
proof (intro conjI impI)
  show "deliver (StartElement Paths_element_name) h =
     Inr \<lparr>m_pProject = m_pProject h @ [ProjectFileItem_new],
          m_stack = Paths_element_name # m_stack h\<rparr>"
    by (simp add: startElement_def)
  show "deliver (StartElement n) h = Inr \<lparr>m_pProject = m_pProject h, m_stack = n # m_stack h\<rparr>"
    if "n \<noteq> Paths_element_name"
    using that by (simp add: startElement_def)
  show "m_pProject h' = m_pProject h" if "deliver (EndElement n) h = Inr h'"
    using that by (auto simp: endElement_def split: list.splits)
  show "h' = h \<or> (m_pProject h \<noteq> [] \<and> m_stack h \<noteq> [] \<and>
          h' = h\<lparr>m_pProject := butlast (m_pProject h)
                    @ [assign (hd (m_stack h)) t (last (m_pProject h))]\<rparr>)"
    if "deliver (Characters t) h = Inr h'"
    using that characters_cases [of t h h'] by simp
  show "parse (es1 @ StartElement Paths_element_name # es2) h =
       (case parse es1 h of
          Inl f \<Rightarrow> Inl f
        | Inr h1 \<Rightarrow> parse es2 \<lparr>m_pProject = m_pProject h1 @ [ProjectFileItem_new],
                                m_stack = Paths_element_name # m_stack h1\<rparr>)"
  proof (cases "parse es1 h")
    case (Inl f)
    then show ?thesis by (simp add: parse_append)
  next
    case (Inr h1)
    have "parse (StartElement Paths_element_name # es2) h1 =
        parse es2 \<lparr>m_pProject = m_pProject h1 @ [ProjectFileItem_new],
                    m_stack = Paths_element_name # m_stack h1\<rparr>"
      by (cases h1) (simp add: startElement_def)
    then show ?thesis using Inr by (simp add: parse_append del: parse.simps)
  qed
  show "length (m_pProject h') =
          length (m_pProject h) + count_list es (StartElement Paths_element_name)"
    if "parse es h = Inr h'"
    using that by (rule parse_length)
qed

text \<open>On \<^verbatim>\<open><project><paths><filter>*.c</filter>\<close>, from an empty list: the item is there
  when \<^verbatim>\<open>paths\<close> has opened, the filter text goes to it, and the close event leaves it.\<close>

theorem startElement_paths_appends_witness:
  "deliver (StartElement Paths_element_name) in_project =
     Inr \<lparr>m_pProject = [ProjectFileItem_new], m_stack = [Paths_element_name, ''project'']\<rparr>
   \<and> deliver (StartElement Filter_element_name)
        \<lparr>m_pProject = [ProjectFileItem_new], m_stack = [Paths_element_name, ''project'']\<rparr> =
     Inr in_filter
   \<and> deliver (Characters ''*.c'') in_filter = Inr in_filter_text
   \<and> m_pProject in_filter \<noteq> [] \<and> m_stack in_filter \<noteq> []
   \<and> in_filter_text =
       in_filter\<lparr>m_pProject := butlast (m_pProject in_filter)
          @ [assign (hd (m_stack in_filter)) ''*.c'' (last (m_pProject in_filter))]\<rparr>
   \<and> deliver (EndElement Filter_element_name) in_filter_text =
       Inr (in_filter_text\<lparr>m_stack := [Paths_element_name, ''project'']\<rparr>)
   \<and> m_pProject (in_filter_text\<lparr>m_stack := [Paths_element_name, ''project'']\<rparr>) =
       m_pProject in_filter_text
   \<and> parse ([StartElement ''project''] @ StartElement Paths_element_name
         # [StartElement Filter_element_name, Characters ''*.c''])
        \<lparr>m_pProject = [], m_stack = []\<rparr> = Inr in_filter_text
   \<and> length (m_pProject in_filter_text) =
       length (m_pProject \<lparr>m_pProject = [], m_stack = []\<rparr>)
       + count_list ([StartElement ''project''] @ StartElement Paths_element_name
           # [StartElement Filter_element_name, Characters ''*.c''])
           (StartElement Paths_element_name)"
proof -
  note T = startElement_paths_appends
  have ne: "Filter_element_name \<noteq> Paths_element_name" by (simp add: element_names)
  have f1: "deliver (StartElement Paths_element_name) in_project =
     Inr \<lparr>m_pProject = [ProjectFileItem_new], m_stack = [Paths_element_name, ''project'']\<rparr>"
    using T [THEN conjunct1, of in_project] by (simp add: in_project_def)
  have f2: "deliver (StartElement Filter_element_name)
        \<lparr>m_pProject = [ProjectFileItem_new], m_stack = [Paths_element_name, ''project'']\<rparr> =
     Inr in_filter"
    using T [THEN conjunct2, THEN conjunct1, THEN mp, OF ne] by (simp add: in_filter_def)
  have f3: "deliver (Characters ''*.c'') in_filter = Inr in_filter_text"
    by (simp add: in_filter_def in_filter_text_def characters_def assign_Filter
        ProjectFileItem_new_def)
  have d: "in_filter_text \<noteq> in_filter"
    by (simp add: in_filter_def in_filter_text_def ProjectFileItem_new_def)
  note f4 = T [THEN conjunct2, THEN conjunct2, THEN conjunct2, THEN conjunct1, THEN mp, OF f3]
  have f5: "deliver (EndElement Filter_element_name) in_filter_text =
       Inr (in_filter_text\<lparr>m_stack := [Paths_element_name, ''project'']\<rparr>)"
    by (simp add: in_filter_text_def endElement_def)
  note f6 = T [THEN conjunct2, THEN conjunct2, THEN conjunct1, THEN mp, OF f5]
  have p: "parse [StartElement ''project''] \<lparr>m_pProject = [], m_stack = []\<rparr> = Inr in_project"
    by (simp add: in_project_def startElement_def element_names)
  have q: "parse [StartElement Filter_element_name, Characters ''*.c'']
        \<lparr>m_pProject = m_pProject in_project @ [ProjectFileItem_new],
          m_stack = Paths_element_name # m_stack in_project\<rparr> = Inr in_filter_text"
    using ne by (simp add: in_project_def in_filter_text_def startElement_def characters_def
        assign_Filter ProjectFileItem_new_def)
  have f7: "parse ([StartElement ''project''] @ StartElement Paths_element_name
         # [StartElement Filter_element_name, Characters ''*.c''])
        \<lparr>m_pProject = [], m_stack = []\<rparr> = Inr in_filter_text"
    using T [THEN conjunct2, THEN conjunct2, THEN conjunct2, THEN conjunct2, THEN conjunct1,
        of "[StartElement ''project'']" "[StartElement Filter_element_name, Characters ''*.c'']"
          "\<lparr>m_pProject = [], m_stack = []\<rparr>"]
      p by (simp only: sum.case q)
  note f8 = T [THEN conjunct2, THEN conjunct2, THEN conjunct2, THEN conjunct2, THEN conjunct2,
      THEN mp, OF f7]
  from f4 d have g4: "m_pProject in_filter \<noteq> [] \<and> m_stack in_filter \<noteq> [] \<and>
      in_filter_text =
       in_filter\<lparr>m_pProject := butlast (m_pProject in_filter)
          @ [assign (hd (m_stack in_filter)) ''*.c'' (last (m_pProject in_filter))]\<rparr>"
    by blast
  from f1 f2 f3 g4 f5 f6 f7 f8 show ?thesis by (intro conjI) blast+
qed

subsection \<open>Text between the elements, and empty text\<close>

lemma characters_unknown:
  assumes "m_stack h \<noteq> []" "hd (m_stack h) \<notin> set leaf_names"
    and "m_pProject h \<noteq> [] \<or> length (m_stack h) \<noteq> 3"
  shows "characters t h = Inr h"
proof (cases "m_pProject h = []")
  case True
  then show ?thesis using assms(3) by (simp add: characters_def)
next
  case False
  obtain n st where st: "m_stack h = n # st" using assms(1) by (cases "m_stack h") auto
  then have "assign n t (last (m_pProject h)) = last (m_pProject h)"
    using assms(2) by (simp add: assign_unknown)
  then show ?thesis using False st by (simp add: characters_def)
qed

lemma parse_strip:
  "harmless (m_pProject h \<noteq> []) (m_stack h) es \<Longrightarrow> parse es h = parse (strip (m_stack h) es) h"
proof (induction es arbitrary: h)
  case Nil
  show ?case by simp
next
  case (Cons e es)
  show ?case
  proof (cases e)
    case (StartElement n)
    have "harmless (m_pProject (startElement n h) \<noteq> []) (m_stack (startElement n h)) es"
      using Cons.prems StartElement by (auto simp: startElement_def)
    then have "parse es (startElement n h) =
        parse (strip (m_stack (startElement n h)) es) (startElement n h)"
      by (rule Cons.IH)
    moreover have "m_stack (startElement n h) = n # m_stack h"
      by (simp add: startElement_def)
    ultimately show ?thesis using StartElement by simp
  next
    case (EndElement n)
    show ?thesis
    proof (cases "m_stack h")
      case Nil
      then show ?thesis using EndElement by (simp add: endElement_def)
    next
      case (Cons m st)
      have "harmless (m_pProject (h\<lparr>m_stack := st\<rparr>) \<noteq> []) (m_stack (h\<lparr>m_stack := st\<rparr>)) es"
        using Cons.prems EndElement Cons by simp
      then have "parse es (h\<lparr>m_stack := st\<rparr>) =
          parse (strip (m_stack (h\<lparr>m_stack := st\<rparr>)) es) (h\<lparr>m_stack := st\<rparr>)"
        by (rule Cons.IH)
      then show ?thesis using EndElement Cons by (simp add: endElement_def)
    qed
  next
    case (Characters t)
    have hl: "harmless (m_pProject h \<noteq> []) (m_stack h) es"
      using Cons.prems Characters by simp
    show ?thesis
    proof (cases "m_stack h \<noteq> [] \<and> hd (m_stack h) \<notin> set leaf_names")
      case True
      then have "m_pProject h \<noteq> [] \<or> length (m_stack h) \<noteq> 3"
        using Cons.prems Characters by simp
      then have "characters t h = Inr h"
        using True by (simp add: characters_unknown)
      then show ?thesis using Characters True Cons.IH [OF hl] by simp
    next
      case False
      show ?thesis
      proof (cases "characters t h")
        case (Inl f)
        then show ?thesis using Characters False by auto
      next
        case (Inr h1)
        have s: "m_stack h1 = m_stack h" "(m_pProject h1 \<noteq> []) = (m_pProject h \<noteq> [])"
          using characters_cases [OF Inr] by auto
        have "parse es h1 = parse (strip (m_stack h1) es) h1"
          using Cons.IH [of h1] hl s by simp
        then show ?thesis using Characters False Inr s by auto
      qed
    qed
  qed
qed

lemma Read_strip:
  "harmless (items \<noteq> []) [] es \<Longrightarrow> Read es items = Read (strip [] es) items"
  using parse_strip [of "\<lparr>m_pProject = items, m_stack = []\<rparr>" es] by (simp add: Read_def)

lemma Read_written_with_white_space:
  "strip [] es = Save D \<Longrightarrow> harmless (items \<noteq> []) [] es \<Longrightarrow>
   Read es items = Inr (items @ map reread D)"
  using Read_strip [of items es] by (simp add: Read_Save)

lemma bool_text_nonempty: "bool_text b \<noteq> []"
  by (simp add: bool_text_def)

lemma to_string_nonempty: "to_string n \<noteq> []"
  by (simp add: to_string_def dec_digits_nonempty)

lemma empty_text_hidden:
  "Characters [] \<in> set (saveHiddenItems hs) \<longleftrightarrow> [] \<in> set hs"
  by (auto simp: saveHiddenItems_def writeElement_def)

lemma empty_text_save_item:
  "[] \<notin> set (m_vSavedHiddenItems item) \<Longrightarrow> Characters [] \<notin> set (save_item item)"
  by (simp add: save_item_def in_set_opt writeElement_def empty_text_hidden
      bool_text_nonempty to_string_nonempty
      bool_text_nonempty [symmetric] to_string_nonempty [symmetric]) auto

lemma drop_empty_text_Save:
  assumes "list_all (\<lambda>item. [] \<notin> set (m_vSavedHiddenItems item)) D"
  shows "drop_empty_text (Save D) = Save D"
proof -
  have "Characters [] \<notin> set (concat (map save_item D))"
    using assms by (induction D) (simp_all add: empty_text_save_item)
  then have "Characters [] \<notin> set (Save D)"
    by (simp add: Save_def)
  then show ?thesis
    unfolding drop_empty_text_def by (simp add: filter_id_conv) blast
qed

subsection \<open>What a parser delivers for a written document\<close>


















lemma join_Characters:
  "join st (Characters t # es) =
     (if st \<noteq> [] \<and> hd st \<in> set string_names
      then (case join st es of
              Characters u # r \<Rightarrow> Characters (t @ u) # r
            | r \<Rightarrow> Characters t # r)
      else Characters t # join st es)"
  by simp











subsection \<open>The round trip through a parser\<close>




subsection \<open>The guard of characters, by depth\<close>




end
